theory Spec2Isabelle
  imports Main "HOL-Library.Char_ord" "HOL-Library.Product_Lexorder"
begin

section \<open>Python values used by the Hearts engine\<close>

text \<open>
  The exceptions the modelled methods of \<^verbatim>\<open>hearts_game.py\<close> can raise. A method that can
  raise returns \<open>py_error + 'a\<close>, with \<open>Inl\<close> for the exception.
\<close>

datatype py_error =
  NameError | IndexError | KeyError | ValueError | TypeError | ZeroDivisionError | EOFError
  | StopIteration

definition bind_err :: "py_error + 'a \<Rightarrow> ('a \<Rightarrow> py_error + 'b) \<Rightarrow> py_error + 'b" where
  "bind_err m f = (case m of Inl e \<Rightarrow> Inl e | Inr x \<Rightarrow> f x)"

text \<open>
  \<^verbatim>\<open>players[i]\<close>: Python reads position \<open>i\<close> from the front when \<open>i\<close> is not negative and
  from the back otherwise (\<^verbatim>\<open>players[-1]\<close> is the last player); IndexError elsewhere.
\<close>

definition py_nth :: "'a list \<Rightarrow> int \<Rightarrow> py_error + 'a" where
  "py_nth xs i =
     (if 0 \<le> i \<and> i < int (length xs) then Inr (xs ! nat i)
      else if i < 0 \<and> - int (length xs) \<le> i then Inr (xs ! nat (int (length xs) + i))
      else Inl IndexError)"

text \<open>\<^verbatim>\<open>xs.index(x)\<close>: the first position of an equal element, ValueError when there is none.\<close>

fun py_index :: "'a list \<Rightarrow> 'a \<Rightarrow> py_error + int" where
  "py_index [] x = Inl ValueError"
| "py_index (y # ys) x =
     (if y = x then Inr 0 else bind_err (py_index ys x) (\<lambda>i. Inr (i + 1)))"

text \<open>\<^verbatim>\<open>str.upper()\<close> on the ASCII letters.\<close>

definition upper_char :: "char \<Rightarrow> char" where
  "upper_char c =
     (case map_of (zip ''abcdefghijklmnopqrstuvwxyz'' ''ABCDEFGHIJKLMNOPQRSTUVWXYZ'') c of
        None \<Rightarrow> c
      | Some u \<Rightarrow> u)"

definition upper :: "string \<Rightarrow> string" where
  "upper s = map upper_char s"

section \<open>Cards\<close>

text \<open>
  \<^verbatim>\<open>cards.Card(rank, suit)\<close>: rank and suit are one character each. Suits are C, D, H, S;
  the joker has rank X.
\<close>

datatype card = Card (rank: char) (suit: char)

text \<open>
  Modelled from the spec: the \<^verbatim>\<open>cards\<close> module (Card, Hand, Deck) is not part of the sources.
  Two cards are equal iff rank and suit match; a card compares equal to a string such as
  \<^verbatim>\<open>'QS'\<close> when its two-character text (rank, then suit) is that string, which is how the
  engine uses \<^verbatim>\<open>card == 'QS'\<close> and \<^verbatim>\<open>card_text in hand\<close>.
\<close>

definition up_text :: "card \<Rightarrow> string" where
  "up_text c = [rank c, suit c]"

definition card_is :: "card \<Rightarrow> string \<Rightarrow> bool" where
  "card_is c txt = (up_text c = txt)"

text \<open>
  Modelled from the spec: \<^verbatim>\<open>deck.ranks\<close> of the missing module. The scoring comments of the
  source (J = 11, Q = 12, K = 13 by position, A set by hand) fix the order of the ranks.
\<close>

definition ranks :: string where
  "ranks = ''XA23456789TJQK''"

fun index_of :: "'a list \<Rightarrow> 'a \<Rightarrow> nat" where
  "index_of [] x = 0"
| "index_of (y # ys) x = (if y = x then 0 else Suc (index_of ys x))"

text \<open>
  Modelled from the spec: \<^verbatim>\<open>card.rank_num\<close>, the numeric ordering of the ranks used for
  comparisons, in a deck made with \<^verbatim>\<open>ace_high = True\<close> (the source's own comment:
  rank 14 is the ace).
\<close>

definition rank_num :: "card \<Rightarrow> nat" where
  "rank_num c = (if rank c = CHR ''A'' then 14 else index_of ranks (rank c))"

text \<open>
  Modelled from the spec: \<^verbatim>\<open>hand.shift(card, other)\<close> of the missing module takes the card
  out of the hand (its first occurrence) and appends it to the other hand, keeping the order
  of both.
\<close>

definition shift :: "card \<Rightarrow> card list \<Rightarrow> card list \<Rightarrow> card list \<times> card list" where
  "shift c hand other = (remove1 c hand, other @ [c])"

section \<open>The game object\<close>

text \<open>
  The attributes of \<^verbatim>\<open>Hearts\<close> that the modelled methods read or write. Players are their
  names: every dictionary of the game (\<^verbatim>\<open>hands\<close>, \<^verbatim>\<open>taken\<close>, \<^verbatim>\<open>scores\<close>) is keyed by
  \<^verbatim>\<open>player.name\<close> and has an entry for each player. \<^verbatim>\<open>deck_cards\<close> is \<^verbatim>\<open>deck.cards\<close>, the
  cards not dealt: after the deal it is the kitty. \<^verbatim>\<open>bonus\<close> is \<open>None\<close> for the empty option
  text. \<^verbatim>\<open>heart_points\<close> is a dictionary from rank to points, kept as an association list.
  \<^verbatim>\<open>answers\<close> and \<^verbatim>\<open>counts\<close> are what the player collaborators will reply to the coming
  \<^verbatim>\<open>ask\<close> and \<^verbatim>\<open>ask_int\<close> calls. \<^verbatim>\<open>pass_dir\<close> is the generator of pass directions: a cycle
  over a tuple with its position, or the generator of \<^verbatim>\<open>dealers_choice\<close>, which holds its
  local \<^verbatim>\<open>valid_dirs\<close> once it has started.
\<close>

datatype pass_gen =
    Cycle "string list" nat
  | DealersChoice "string list option"

record game =
  players :: "string list"
  human :: string
  player_index :: int
  dealer :: string
  deck_cards :: "card list"
  hands :: "string \<Rightarrow> card list"
  taken :: "string \<Rightarrow> card list"
  trick :: "card list"
  hearts_broken :: bool
  phase :: string
  scores :: "string \<Rightarrow> int"
  all_break :: bool
  break_hearts :: bool
  jokers_follow :: bool
  joker_points :: bool
  bonus :: "card option"
  kitty :: string
  heart_points :: "(char \<times> int) list"
  lady_points :: int
  max_score :: int
  breakers :: "card set"
  moon :: string
  no_tricks :: int
  end_score :: int
  num_pass :: int
  pass_dir :: pass_gen
  this_pass :: string
  pass_to :: "string \<Rightarrow> string"
  answers :: "string list"
  counts :: "int list"

section \<open>Scoring\<close>

text \<open>
  \<^verbatim>\<open>score_players\<close>, the loop over one player's taken cards. The tally is
  (hearts, heart_points, lady, jokers, bonus); the chain of \<^verbatim>\<open>if\<close>/\<^verbatim>\<open>elif\<close> keeps the
  source's order, so a bonus card that is a heart, the queen of spades or a joker is never
  recorded as the bonus.
\<close>

type_synonym tally = "int \<times> int \<times> int \<times> int \<times> card option"

fun count_card :: "game \<Rightarrow> card \<Rightarrow> tally \<Rightarrow> py_error + tally" where
  "count_card g c (h, hp, l, j, b) =
     (if suit c = CHR ''H'' then
        (case map_of (heart_points g) (rank c) of
           None \<Rightarrow> Inl KeyError
         | Some p \<Rightarrow> Inr (h + 1, hp + p, l, j, b))
      else if card_is c ''QS'' then Inr (h, hp, l + 1, j, b)
      else if rank c = CHR ''X'' then Inr (h, hp, l, j + 1, b)
      else if Some c = bonus g then Inr (h, hp, l, j, Some c)
      else Inr (h, hp, l, j, b))"

fun count_cards :: "game \<Rightarrow> card list \<Rightarrow> tally \<Rightarrow> py_error + tally" where
  "count_cards g [] t = Inr t"
| "count_cards g (c # cs) t = bind_err (count_card g c t) (count_cards g cs)"

text \<open>The unadjusted points of a tally ("Calculate and store the unadjusted points").\<close>

fun player_points :: "game \<Rightarrow> tally \<Rightarrow> int" where
  "player_points g (h, hp, l, j, b) =
     (let pp = hp + lady_points g * l;
          pp = (if joker_points g then pp + j else pp)
      in if bonus g \<noteq> None \<and> b \<noteq> None then max 0 (pp - 10) else pp)"

fun tally_bonus :: "tally \<Rightarrow> card option" where
  "tally_bonus (h, hp, l, j, b) = b"

text \<open>
  The loop of \<^verbatim>\<open>score_players\<close> over the players. \<^verbatim>\<open>round_points\<close> is a dictionary keyed by
  the players' names (a function here, its keys are the names in \<^verbatim>\<open>players\<close>); \<^verbatim>\<open>shooter\<close>
  is a name, the empty string when nobody shot the moon.
\<close>

fun score_loop ::
  "game \<Rightarrow> string list \<Rightarrow> (string \<Rightarrow> int) \<times> string \<Rightarrow> py_error + ((string \<Rightarrow> int) \<times> string)" where
  "score_loop g [] acc = Inr acc"
| "score_loop g (p # ps) (round_points, shooter) =
     bind_err (count_cards g (taken g p) (0, 0, 0, 0, None)) (\<lambda>t.
       let pp = player_points g t;
           round_points = round_points(p := pp);
           shooter = (if pp = max_score g \<and> (tally_bonus t \<noteq> None \<or> bonus g = None)
                      then p else shooter);
           round_points = (if taken g p = [] \<and> no_tricks g \<noteq> 0
                           then round_points(p := - no_tricks g) else round_points)
       in score_loop g ps (round_points, shooter))"

definition score_players :: "game \<Rightarrow> py_error + ((string \<Rightarrow> int) \<times> string)" where
  "score_players g = score_loop g (players g) (\<lambda>_. 0, [])"

text \<open>
  \<^verbatim>\<open>max(self.scores.values())\<close>; it is only evaluated with at least one player (a shooter
  is a player, and a trick was resolved among \<^verbatim>\<open>len(self.players)\<close> seats).
\<close>

definition max_scores :: "game \<Rightarrow> int" where
  "max_scores g = Max (set (map (scores g) (players g)))"

text \<open>
  \<^verbatim>\<open>score_round\<close>. The adjustment for shooting the moon loops over the keys of
  \<^verbatim>\<open>round_points\<close>, each key once; then every player's overall score is updated, floored at 0.
\<close>

fun moon_old :: "string \<Rightarrow> int \<Rightarrow> string list \<Rightarrow> (string \<Rightarrow> int) \<Rightarrow> (string \<Rightarrow> int)" where
  "moon_old shooter moon_value [] round_points = round_points"
| "moon_old shooter moon_value (p # ps) round_points =
     moon_old shooter moon_value ps
       (if p = shooter then round_points(p := 0)
        else round_points(p := round_points p + moon_value))"

fun add_scores :: "(string \<Rightarrow> int) \<Rightarrow> string list \<Rightarrow> (string \<Rightarrow> int) \<Rightarrow> (string \<Rightarrow> int)" where
  "add_scores round_points [] sc = sc"
| "add_scores round_points (p # ps) sc =
     add_scores round_points ps (sc(p := max (sc p + round_points p) 0))"

definition moon_value :: "game \<Rightarrow> int" where
  "moon_value g = max_score g + 10 * (if bonus g \<noteq> None then 1 else 0)"

definition adjust_moon :: "game \<Rightarrow> (string \<Rightarrow> int) \<Rightarrow> string \<Rightarrow> py_error + (string \<Rightarrow> int)" where
  "adjust_moon g round_points shooter =
     (if shooter \<noteq> [] then
        (case moon g of
           [] \<Rightarrow> Inl IndexError
         | m # _ \<Rightarrow>
             let auto_old = (m = CHR ''a'' \<and> max_scores g + moon_value g < end_score g)
             in if m = CHR ''o'' \<or> auto_old
                then Inr (moon_old shooter (moon_value g) (remdups (players g)) round_points)
                else Inr (round_points(shooter := - moon_value g)))
      else Inr round_points)"

definition score_round :: "game \<Rightarrow> py_error + game" where
  "score_round g =
     bind_err (score_players g) (\<lambda>(round_points, shooter).
     bind_err (adjust_moon g round_points shooter) (\<lambda>round_points.
       Inr (g\<lparr>scores := add_scores round_points (players g) (scores g)\<rparr>)))"

text \<open>
  The test of \<^verbatim>\<open>score_players\<close> for a successful shooter, for the player named \<open>p\<close>: the
  unadjusted points equal \<^verbatim>\<open>max_score\<close>, and the bonus card was taken if there is one.
\<close>

definition shoots :: "game \<Rightarrow> string \<Rightarrow> bool" where
  "shoots g p =
     (case count_cards g (taken g p) (0, 0, 0, 0, None) of
        Inl e \<Rightarrow> False
      | Inr t \<Rightarrow> player_points g t = max_score g \<and> (tally_bonus t \<noteq> None \<or> bonus g = None))"

text \<open>
  The round points that \<^verbatim>\<open>score_round\<close> adds to the overall scores, after the adjustment
  for the moon, listed in the order of the players, and the shooter.
\<close>

definition round_result :: "game \<Rightarrow> py_error + (int list \<times> string)" where
  "round_result g =
     bind_err (score_players g) (\<lambda>(round_points, shooter).
     bind_err (adjust_moon g round_points shooter) (\<lambda>round_points.
       Inr (map round_points (players g), shooter)))"

section \<open>Dealing\<close>

text \<open>
  \<^verbatim>\<open>deal\<close>. Modelled from the spec: \<^verbatim>\<open>deck.shuffle()\<close> and \<^verbatim>\<open>hand.draw()\<close> belong to the
  missing \<^verbatim>\<open>cards\<close> module. The order of the deck after the shuffle is the parameter
  \<open>shuffled\<close> (the randomness source is outside the engine); \<^verbatim>\<open>draw\<close> takes the last card
  of \<^verbatim>\<open>deck.cards\<close> into the hand and raises IndexError on an empty deck. The loop runs
  over \<^verbatim>\<open>itertools.cycle\<close> of the rotation that starts left of the dealer and stops after
  the dealer's card once fewer cards than players are left. The pile is the deck with the
  next card to draw first.
\<close>

fun deal_loop ::
  "string \<Rightarrow> nat \<Rightarrow> string list \<Rightarrow> nat \<Rightarrow> card list \<Rightarrow> (string \<Rightarrow> card list)
     \<Rightarrow> py_error + ((string \<Rightarrow> card list) \<times> card list)" where
  "deal_loop dl n rotation k [] hs = Inl IndexError"
| "deal_loop dl n rotation k (c # pile) hs =
     (let player = rotation ! (k mod length rotation);
          hs = hs(player := hs player @ [c])
      in if player = dl \<and> length pile < n then Inr (hs, pile)
         else deal_loop dl n rotation (Suc k) pile hs)"

definition deal :: "card list \<Rightarrow> game \<Rightarrow> py_error + game" where
  "deal shuffled g =
     bind_err (py_index (players g) (dealer g)) (\<lambda>i.
       let n = length (players g);
           player_index = nat ((i + 1) mod int n);
           rotation = drop player_index (players g) @ take player_index (players g)
       in bind_err (deal_loop (dealer g) n rotation 0 (rev shuffled) (hands g)) (\<lambda>(hs, pile).
            Inr (g\<lparr>deck_cards := rev pile,
                   hands := (\<lambda>p. sort_key (\<lambda>c. (suit c, rank_num c)) (hs p)),
                   dealer := players g ! player_index,
                   hearts_broken := \<not> (break_hearts g \<or> all_break g)\<rparr>)))"

section \<open>Pass directions\<close>

definition pass_aliases :: "(string \<times> string) list" where
  "pass_aliases =
     [(''l'', ''left''), (''r'', ''right''), (''rl'', ''right-left''), (''lr'', ''left-right''),
      (''@'', ''rot-left''), (''c'', ''central''), (''d'', ''dealer''), (''n'', ''not''),
      (''s'', ''scatter'')]"

text \<open>
  \<^verbatim>\<open>dealers_choice\<close>, a generator. Its first \<^verbatim>\<open>next\<close> runs the statements before the loop:
  with a number of players other than 4 or 6 it evaluates \<^verbatim>\<open>valid[:-1]\<close>, and no name
  \<^verbatim>\<open>valid\<close> exists in the function or the module, so Python raises NameError there.
\<close>

definition dealers_choice_start :: "game \<Rightarrow> py_error + string list" where
  "dealers_choice_start g =
     (let valid_dirs = [''left'', ''right'', ''not'', ''center'', ''scatter'', ''across'']
      in if length (players g) \<notin> {4, 6} then Inl NameError else Inr valid_dirs)"

text \<open>
  The inner loop: ask the dealer until the answer (after the aliases) is a valid direction.
  Each rejected answer is reported with \<^verbatim>\<open>dealer.error\<close> and the dealer is asked again; the
  replies come from \<open>answers\<close>, and \<^verbatim>\<open>input\<close> raises EOFError when there is none left.
  The result is the direction, the replies not yet read and the rejected answers.
\<close>

fun ask_direction ::
  "string list \<Rightarrow> string list \<Rightarrow> string list \<Rightarrow> py_error + (string \<times> string list \<times> string list)" where
  "ask_direction valid_dirs rejected [] = Inl EOFError"
| "ask_direction valid_dirs rejected (a # as) =
     (let pass_dir = (case map_of pass_aliases a of None \<Rightarrow> a | Some d \<Rightarrow> d)
      in if pass_dir \<in> set valid_dirs then Inr (pass_dir, as, rejected)
         else ask_direction valid_dirs (rejected @ [pass_dir]) as)"

text \<open>
  One turn of the outer loop, from its head to the \<^verbatim>\<open>yield\<close>. \<^verbatim>\<open>ask_int\<close> belongs to the
  missing player interface; its reply is the next of \<open>counts\<close>.
\<close>

definition dealers_choice_turn :: "string list \<Rightarrow> game \<Rightarrow> py_error + (string \<times> game)" where
  "dealers_choice_turn valid_dirs g =
     bind_err (py_index (players g) (dealer g)) (\<lambda>i.
     bind_err (py_nth (players g) (i - 1)) (\<lambda>dealer.
     bind_err (ask_direction valid_dirs [] (answers g)) (\<lambda>(pass_dir, rest, rejected).
       if pass_dir = ''scatter''
       then Inr (pass_dir, g\<lparr>answers := rest, num_pass := int (length (players g)) - 1\<rparr>)
       else if pass_dir = ''not''
       then Inr (pass_dir, g\<lparr>answers := rest, num_pass := 0\<rparr>)
       else (case counts g of
               [] \<Rightarrow> Inl EOFError
             | k # ks \<Rightarrow> Inr (pass_dir, g\<lparr>answers := rest, counts := ks, num_pass := k\<rparr>)))))"

text \<open>\<^verbatim>\<open>next(self.pass_dir)\<close>, for a cycle over a tuple and for dealer's choice.\<close>

definition next_pass_dir :: "game \<Rightarrow> py_error + (string \<times> game)" where
  "next_pass_dir g =
     (case pass_dir g of
        Cycle dirs i \<Rightarrow>
          if dirs = [] then Inl StopIteration
          else Inr (dirs ! (i mod length dirs), g\<lparr>pass_dir := Cycle dirs (Suc i)\<rparr>)
      | DealersChoice None \<Rightarrow>
          bind_err (dealers_choice_start g) (\<lambda>valid_dirs.
            dealers_choice_turn valid_dirs (g\<lparr>pass_dir := DealersChoice (Some valid_dirs)\<rparr>))
      | DealersChoice (Some valid_dirs) \<Rightarrow> dealers_choice_turn valid_dirs g)"

text \<open>
  \<^verbatim>\<open>int(text)\<close> on a run of decimal digits (the only texts the engine's own direction
  labels \<^verbatim>\<open>left-<k>\<close> hold); anything else is a ValueError.
\<close>

fun py_int :: "nat \<Rightarrow> string \<Rightarrow> py_error + nat" where
  "py_int acc [] = Inr acc"
| "py_int acc (c # cs) =
     (case map_of (zip ''0123456789'' [0 ..< 10]) c of
        None \<Rightarrow> Inl ValueError
      | Some d \<Rightarrow> py_int (10 * acc + d) cs)"

text \<open>
  \<^verbatim>\<open>set_pass\<close>. A direction with no branch of its own leaves the local \<^verbatim>\<open>pass_to\<close> unbound,
  which is an UnboundLocalError (a NameError) where the dictionary is built.
\<close>

definition rotate_players :: "nat \<Rightarrow> string list \<Rightarrow> string list" where
  "rotate_players offset ps = drop offset ps @ take offset ps"

definition passees :: "string \<Rightarrow> string list \<Rightarrow> py_error + string list" where
  "passees direction ps =
     (if direction = ''left'' then Inr (rotate_players 1 ps)
      else if direction = ''right'' then Inr (rotate_players (length ps - 1) ps)
      else if direction = ''across'' then Inr (rotate_players (length ps div 2) ps)
      else if take 5 direction = ''left-''
      then (case takeWhile (\<lambda>c. c \<noteq> CHR ''-'') (drop 5 direction) of
              [] \<Rightarrow> Inl ValueError
            | ds \<Rightarrow> bind_err (py_int 0 ds) (\<lambda>offset. Inr (rotate_players offset ps)))
      else Inl NameError)"

fun zip_dict :: "(string \<times> string) list \<Rightarrow> (string \<Rightarrow> string) \<Rightarrow> (string \<Rightarrow> string)" where
  "zip_dict [] d = d"
| "zip_dict ((k, v) # kvs) d = zip_dict kvs (d(k := v))"

definition set_pass :: "game \<Rightarrow> py_error + game" where
  "set_pass g =
     bind_err (next_pass_dir (g\<lparr>phase := ''pass''\<rparr>)) (\<lambda>(direction, g).
       let g = g\<lparr>this_pass := direction\<rparr>
       in if direction = ''not'' then Inr (g\<lparr>phase := ''trick''\<rparr>)
          else if direction = ''center''
          then Inr (g\<lparr>pass_to := zip_dict (map (\<lambda>p. (p, ''the center'')) (players g)) (\<lambda>_. [])\<rparr>)
          else if direction = ''scatter''
          then Inr (g\<lparr>pass_to := zip_dict (map (\<lambda>p. (p, direction)) (players g)) (\<lambda>_. [])\<rparr>)
          else bind_err (passees direction (players g)) (\<lambda>to.
                 Inr (g\<lparr>pass_to := zip_dict (zip (players g) to) (\<lambda>_. [])\<rparr>)))"

section \<open>Resolving a trick\<close>

text \<open>
  \<^verbatim>\<open>trick_winner\<close>, from "Handle the win" to "Clear the trick": what the winner of the
  trick gets. In \<^verbatim>\<open>kitty_win or 'heart' and [...]\<close> the \<^verbatim>\<open>and\<close> binds first and a non-empty
  string is true, so the value is true when the kitty is for the first trick or the trick
  holds a heart.
\<close>

definition take_trick :: "string \<Rightarrow> game \<Rightarrow> game" where
  "take_trick winner g =
     (let tk = (taken g)(winner := taken g winner @ trick g);
          kitty_win = (deck_cards g \<noteq> [] \<and>
            (kitty g = ''first'' \<or> filter (\<lambda>c. suit c = CHR ''H'') (trick g) \<noteq> []));
          tk = (if kitty_win then tk(winner := tk winner @ deck_cards g) else tk);
          dc = (if kitty_win then [] else deck_cards g);
          hb = (if \<not> hearts_broken g \<and> breakers g \<inter> set (trick g) \<noteq> {}
                then True else hearts_broken g)
      in g\<lparr>taken := tk, deck_cards := dc, hearts_broken := hb, trick := []\<rparr>)"

text \<open>
  \<^verbatim>\<open>trick_winner\<close> up to "Clear the trick". \<^verbatim>\<open>sorted\<close> is stable, as \<open>sort_key\<close> is, and
  \<^verbatim>\<open>[-1]\<close> takes its last element; the list is not empty, the card led is in it.
  The result is the game and \<^verbatim>\<open>winner_index\<close>.
\<close>

definition trick_won :: "game \<Rightarrow> py_error + (game \<times> int)" where
  "trick_won g =
     (case trick g of
        [] \<Rightarrow> Inl IndexError
      | led # _ \<Rightarrow>
          let trick_suit = suit led;
              suit_cards = filter (\<lambda>c. suit c = trick_suit) (trick g);
              winning_card = last (sort_key rank_num suit_cards)
          in bind_err (py_index (trick g) winning_card) (\<lambda>card_index.
             if players g = [] then Inl ZeroDivisionError
             else
               let winner_index = (player_index g + 1 + card_index) mod int (length (players g))
               in bind_err (py_nth (players g) winner_index) (\<lambda>winner.
                    Inr (take_trick winner g, winner_index))))"

text \<open>
  The whole of \<^verbatim>\<open>trick_winner\<close>: when the human's hand is empty the round is scored and,
  unless the game is over, the taken cards are discarded and the next round is dealt
  (\<open>shuffled\<close> is the deck after that shuffle); otherwise the winner is made the next to play
  (the game loop adds one to \<^verbatim>\<open>player_index\<close> after each turn).
\<close>

definition trick_winner :: "card list \<Rightarrow> game \<Rightarrow> py_error + game" where
  "trick_winner shuffled g =
     bind_err (trick_won g) (\<lambda>(g, winner_index).
       if hands g (human g) = [] then
         bind_err (score_round g) (\<lambda>g.
           if max_scores g < end_score g
           then bind_err (deal shuffled (g\<lparr>taken := (\<lambda>_. [])\<rparr>)) set_pass
           else Inr g)
       else Inr (g\<lparr>player_index := winner_index - 1\<rparr>))"

section \<open>Playing a card\<close>

text \<open>
  \<^verbatim>\<open>card_re.match\<close>: optional white space, a rank character and a suit character, in either
  case, at the start of the text (what follows is not looked at). The characters of a text
  are code points below 256; \<^verbatim>\<open>\s\<close> matches, among them, the space, the controls 9 to 13
  and 28 to 31, the next-line control 133 and the no-break space 160.
\<close>

definition is_space :: "char \<Rightarrow> bool" where
  "is_space c =
     (c \<in> set [CHR '' '', CHR 0x09, CHR 0x0A, CHR 0x0B, CHR 0x0C, CHR 0x0D,
                CHR 0x1C, CHR 0x1D, CHR 0x1E, CHR 0x1F, CHR 0x85, CHR 0xA0])"

definition card_re_match :: "string \<Rightarrow> bool" where
  "card_re_match text =
     (case dropWhile is_space text of
        r # s # _ \<Rightarrow> upper_char r \<in> set ''X123456789TJQKA'' \<and> upper_char s \<in> set ''CDHS''
      | _ \<Rightarrow> False)"

text \<open>
  The messages of \<^verbatim>\<open>do_play\<close> sent with \<^verbatim>\<open>player.error\<close>, each followed by
  \<^verbatim>\<open>return True\<close> (the same player is asked again), in the order of the source.
\<close>

datatype play_error =
    NotACard
  | WrongTime
  | NotHeld
  | SuitNotFollowed
  | JokerLead
  | HeartLead

text \<open>
  \<^verbatim>\<open>do_play\<close>. The result holds the message of a rejected play (\<open>None\<close> when the card was
  played) and the game after the call.
\<close>

definition do_play :: "string \<Rightarrow> game \<Rightarrow> py_error + (play_error option \<times> game)" where
  "do_play arguments g =
     bind_err (py_nth (players g) (player_index g)) (\<lambda>player.
       let hand = hands g player
       in if \<not> card_re_match arguments then Inr (Some NotACard, g)
          else
            let card_text = upper arguments
            in if phase g \<noteq> ''trick'' then Inr (Some WrongTime, g)
               else
                 (case find (\<lambda>c. card_is c card_text) hand of
                    None \<Rightarrow> Inr (Some NotHeld, g)
                  | Some to_play \<Rightarrow>
                      (case trick g of
                         led # _ \<Rightarrow>
                           let trick_suit = suit led
                           in if suit to_play \<noteq> trick_suit \<and>
                                 filter (\<lambda>c. suit c = trick_suit) hand \<noteq> []
                              then Inr (Some SuitNotFollowed, g)
                              else
                                let (hand, tr) = shift to_play hand (trick g)
                                in Inr (None, g\<lparr>hands := (hands g)(player := hand), trick := tr\<rparr>)
                       | [] \<Rightarrow>
                           let playable = hand;
                               playable = (if jokers_follow g
                                           then filter (\<lambda>c. rank c \<noteq> CHR ''X'') playable
                                           else playable);
                               playable = (if \<not> hearts_broken g
                                           then filter (\<lambda>c. suit c \<noteq> CHR ''H'') playable
                                           else playable)
                           in if rank to_play = CHR ''X'' \<and> jokers_follow g \<and> playable \<noteq> []
                              then Inr (Some JokerLead, g)
                              else if suit to_play = CHR ''H'' \<and> \<not> hearts_broken g \<and> playable \<noteq> []
                              then Inr (Some HeartLead, g)
                              else
                                let (hand, tr) = shift to_play hand (trick g)
                                in Inr (None, g\<lparr>hands := (hands g)(player := hand), trick := tr\<rparr>))))"

section \<open>Scoring options\<close>

text \<open>\<^verbatim>\<open>d[k] = v\<close> on a dictionary kept as an association list.\<close>

fun dict_set :: "'k \<Rightarrow> 'v \<Rightarrow> ('k \<times> 'v) list \<Rightarrow> ('k \<times> 'v) list" where
  "dict_set k v [] = [(k, v)]"
| "dict_set k v ((k', v') # kvs) =
     (if k' = k then (k, v) # kvs else (k', v') # dict_set k v kvs)"

text \<open>
  \<^verbatim>\<open>handle_opt_score\<close>. \<open>heart_score\<close> and \<open>bonus_text\<close> are the option texts; the deck is
  the full deck, before any deal. The string \<^verbatim>\<open>'QS'\<close> added to the set of breakers is the
  card it is equal to.
\<close>

definition heart_points_for :: "char \<Rightarrow> (char \<times> int) list" where
  "heart_points_for h =
     (let one = map (\<lambda>r. (r, 1)) (tl ranks)
      in if h = CHR ''f''
         then dict_set CHR ''A'' 5 (dict_set CHR ''K'' 4 (dict_set CHR ''Q'' 3 (dict_set CHR ''J'' 2 one)))
         else if h = CHR ''p''
         then dict_set CHR ''A'' 10 (map (\<lambda>(score, r). (r, min 10 (int score))) (enumerate 0 ranks))
         else if h = CHR ''r''
         then dict_set CHR ''A'' 14 (map (\<lambda>(score, r). (r, int score)) (enumerate 0 ranks))
         else one)"

definition handle_opt_score :: "string \<Rightarrow> string \<Rightarrow> game \<Rightarrow> py_error + game" where
  "handle_opt_score heart_score bonus_text g =
     (case heart_score of
        [] \<Rightarrow> Inl IndexError
      | h # _ \<Rightarrow>
          let hp = heart_points_for h;
              ms = sum_list (map snd hp) + lady_points g;
              br = set (filter (\<lambda>c. suit c = CHR ''H'') (deck_cards g));
              br = (if all_break g then insert (Card CHR ''Q'' CHR ''S'') br else br);
              jokers = filter (\<lambda>c. rank c = CHR ''X'') (deck_cards g);
              ms = (if joker_points g then ms + int (length jokers) else ms);
              br = (if joker_points g \<and> all_break g then br \<union> set jokers else br);
              g = g\<lparr>heart_points := hp, max_score := ms, breakers := br\<rparr>
          in (case bonus_text of
                [] \<Rightarrow> Inr (g\<lparr>bonus := None\<rparr>)
              | [r, s] \<Rightarrow> Inr (g\<lparr>bonus := Some (Card r s), max_score := ms - 10\<rparr>)
              | _ \<Rightarrow> Inl TypeError))"

section \<open>Deal options\<close>

text \<open>
  \<^verbatim>\<open>handle_opt_deal\<close>, from the option text \<open>extras\<close>. Modelled from the spec:
  \<^verbatim>\<open>deck.force(text)\<close> of the missing \<^verbatim>\<open>cards\<close> module takes the named card out of the deck.
  The stack of cards to ditch is listed in the order \<^verbatim>\<open>pop()\<close> returns them. The counter
  \<open>i\<close> of \<open>add_jokers\<close> is the position reached in \<^verbatim>\<open>itertools.cycle('CD')\<close>.
\<close>

definition force :: "string \<Rightarrow> card list \<Rightarrow> card list" where
  "force text deck = filter (\<lambda>c. \<not> card_is c text) deck"

fun ditch :: "nat \<Rightarrow> string list \<Rightarrow> card list \<Rightarrow> py_error + card list" where
  "ditch n [] deck = (if length deck mod n = 0 then Inr deck else Inl IndexError)"
| "ditch n (text # stack) deck =
     (if length deck mod n = 0 then Inr deck else ditch n stack (force text deck))"

function add_jokers :: "nat \<Rightarrow> nat \<Rightarrow> card list \<Rightarrow> card list" where
  "add_jokers n i deck =
     (if n = 0 \<or> length deck mod n = 0 then deck
      else add_jokers n (Suc i) (deck @ [Card CHR ''X'' (''CD'' ! (i mod 2))]))"
  by pat_completeness auto
termination
proof (relation "measure (\<lambda>(n, i, deck). (n - length deck mod n) mod n)")
  show "wf (measure (\<lambda>(n, i, deck). (n - length deck mod n) mod n))" by simp
next
  fix n i :: nat and deck :: "card list"
  assume a: "\<not> (n = 0 \<or> length deck mod n = 0)"
  then have n: "0 < n" and r: "0 < length deck mod n" by simp_all
  have lt: "length deck mod n < n" using n by simp
  have "(n - Suc (length deck) mod n) mod n < (n - length deck mod n) mod n"
  proof (cases "Suc (length deck mod n) = n")
    case True
    then have "Suc (length deck) mod n = 0" by (simp add: mod_Suc)
    with r lt n show ?thesis by simp
  next
    case False
    then have "Suc (length deck) mod n = Suc (length deck mod n)" by (simp add: mod_Suc)
    with r lt False show ?thesis by simp
  qed
  then show "((n, Suc i, deck @ [Card CHR ''X'' (''CD'' ! (i mod 2))]), (n, i, deck))
      \<in> measure (\<lambda>(n, i, deck). (n - length deck mod n) mod n)" by simp
qed

definition handle_opt_deal :: "string \<Rightarrow> game \<Rightarrow> py_error + game" where
  "handle_opt_deal extras g =
     (case extras of
        [] \<Rightarrow> Inl IndexError
      | x # _ \<Rightarrow>
          if players g = [] \<and> (x = CHR ''d'' \<or> x = CHR ''j'') then Inl ZeroDivisionError
          else if x = CHR ''d''
          then bind_err (ditch (length (players g)) [''2C'', ''2D'', ''3C'', ''3D''] (deck_cards g))
                 (\<lambda>deck. Inr (g\<lparr>deck_cards := deck\<rparr>))
          else if x = CHR ''f'' then Inr (g\<lparr>kitty := ''first''\<rparr>)
          else if x = CHR ''h'' then Inr (g\<lparr>kitty := ''heart''\<rparr>)
          else if x = CHR ''j''
          then Inr (g\<lparr>deck_cards := add_jokers (length (players g)) 0 (deck_cards g)\<rparr>)
          else Inr g)"

section \<open>Steps of a round\<close>

text \<open>
  What happens to the game between a deal and the end of the round: a call of \<^verbatim>\<open>do_play\<close>,
  a call of \<^verbatim>\<open>trick_winner\<close> that does not end the round (the human still holds cards),
  and the game loop moving on to another player, which only changes \<^verbatim>\<open>player_index\<close>.
\<close>

inductive round_step :: "game \<Rightarrow> game \<Rightarrow> bool" where
  play: "do_play arguments g = Inr (r, g') \<Longrightarrow> round_step g g'"
| resolve: "trick_won g = Inr (g1, w) \<Longrightarrow> hands g1 (human g1) \<noteq> [] \<Longrightarrow>
            trick_winner shuffled g = Inr g' \<Longrightarrow> round_step g g'"
| turn: "round_step g (g\<lparr>player_index := i\<rparr>)"

section \<open>Games used as examples\<close>

abbreviation "AH \<equiv> Card CHR ''A'' CHR ''H''"
abbreviation "KH \<equiv> Card CHR ''K'' CHR ''H''"
abbreviation "H5 \<equiv> Card CHR ''5'' CHR ''H''"
abbreviation "H2 \<equiv> Card CHR ''2'' CHR ''H''"
abbreviation "QS \<equiv> Card CHR ''Q'' CHR ''S''"
abbreviation "JD \<equiv> Card CHR ''J'' CHR ''D''"
abbreviation "C2 \<equiv> Card CHR ''2'' CHR ''C''"
abbreviation "C3 \<equiv> Card CHR ''3'' CHR ''C''"
abbreviation "C5 \<equiv> Card CHR ''5'' CHR ''C''"
abbreviation "C9 \<equiv> Card CHR ''9'' CHR ''C''"
abbreviation "D4 \<equiv> Card CHR ''4'' CHR ''D''"
abbreviation "D5 \<equiv> Card CHR ''5'' CHR ''D''"
abbreviation "D6 \<equiv> Card CHR ''6'' CHR ''D''"
abbreviation "D7 \<equiv> Card CHR ''7'' CHR ''D''"
abbreviation "XC \<equiv> Card CHR ''X'' CHR ''C''"

text \<open>The standard deck of 52 cards.\<close>

definition standard_deck :: "card list" where
  "standard_deck = concat (map (\<lambda>s. map (\<lambda>r. Card r s) ''23456789TJQKA'') ''CDHS'')"

text \<open>The thirteen hearts, and all the penalty cards of the standard deck.\<close>

definition all_hearts :: "card list" where
  "all_hearts = map (\<lambda>r. Card r CHR ''H'') ''23456789TJQKA''"

definition all_penalties :: "card list" where
  "all_penalties = all_hearts @ [QS]"

text \<open>
  A table of four with the default scoring (a point a heart, 13 for the queen of spades,
  the moon scored the old way, the game ending at 100), hearts to be broken before they lead.
\<close>

definition table :: game where
  "table = \<lparr>players = [''Ann'', ''Bob'', ''Cat'', ''Dan''], human = ''Ann'', player_index = 3,
     dealer = ''Ann'', deck_cards = [],
     hands = (\<lambda>_. [])(''Ann'' := [D4], ''Bob'' := [D5], ''Cat'' := [D6], ''Dan'' := [D7]),
     taken = (\<lambda>_. []), trick = [],
     hearts_broken = False, phase = ''trick'', scores = (\<lambda>_. 0), all_break = False,
     break_hearts = True, jokers_follow = False, joker_points = False, bonus = None,
     kitty = [], heart_points = heart_points_for CHR ''o'', lady_points = 13, max_score = 26,
     breakers = set all_hearts, moon = ''old'', no_tricks = 0, end_score = 100,
     num_pass = 3, pass_dir = Cycle [''right''] 0, this_pass = ''right'',
     pass_to = (\<lambda>_. []), answers = [], counts = []\<rparr>"

text \<open>A table of three whose dealer chooses the pass direction, about to answer "across".\<close>

definition table_of_three :: game where
  "table_of_three = table\<lparr>players := [''Ann'', ''Bob'', ''Cat''],
     pass_dir := DealersChoice None, answers := [''across''], counts := [3]\<rparr>"

text \<open>Ann is to lead, holding the ace of hearts and the two of clubs.\<close>

definition ann_leads :: game where
  "ann_leads = table\<lparr>player_index := 0, hands := (hands table)(''Ann'' := [AH, C2])\<rparr>"

text \<open>Ann is to lead with jokers barred from leading, holding the ace of hearts and a joker.\<close>

definition ann_heart_and_joker :: game where
  "ann_heart_and_joker = table\<lparr>player_index := 0, jokers_follow := True,
     hands := (hands table)(''Ann'' := [AH, XC])\<rparr>"

text \<open>
  Ann led the five of hearts, Bob played the king, Cat the two, and Dan, the last to play,
  the queen of spades.
\<close>

definition trick_example :: game where
  "trick_example = table\<lparr>trick := [H5, KH, H2, QS]\<rparr>"

text \<open>
  Three players and a kitty of one card. Ann led the three of clubs, Bob played the nine
  and Cat, the last to play, the five; in the second trick Bob played the ace of hearts.
\<close>

definition kitty_first :: game where
  "kitty_first = table\<lparr>players := [''Ann'', ''Bob'', ''Cat''], player_index := 2,
     kitty := ''first'', deck_cards := [C2], trick := [C3, C9, C5]\<rparr>"

definition kitty_heart :: game where
  "kitty_heart = kitty_first\<lparr>kitty := ''heart''\<rparr>"

definition kitty_heart_played :: game where
  "kitty_heart_played = kitty_heart\<lparr>trick := [C3, AH, C5]\<rparr>"

text \<open>
  The table before a deal, every hand empty; the same with none of the two break options
  set, which is the default; and the table with the full deck at the time the options are
  handled, with the all-break option.
\<close>

definition fresh_table :: game where
  "fresh_table = table\<lparr>hands := (\<lambda>_. [])\<rparr>"

definition default_table :: game where
  "default_table = fresh_table\<lparr>break_hearts := False\<rparr>"

definition all_break_table :: game where
  "all_break_table = fresh_table\<lparr>deck_cards := standard_deck, all_break := True\<rparr>"

text \<open>
  Rounds to score. Ann won every trick, so holds the whole deck, the others none; the same
  with five points off for winning no trick; with the moon scored the new way; and scored
  the automatic way with Ann at 90 points and the others at 10.
\<close>

definition ann_took_all :: game where
  "ann_took_all = table\<lparr>hands := (\<lambda>_. []), taken := (\<lambda>_. [])(''Ann'' := standard_deck)\<rparr>"

definition ann_took_all_no_tricks :: game where
  "ann_took_all_no_tricks = ann_took_all\<lparr>no_tricks := 5\<rparr>"

definition ann_took_all_new :: game where
  "ann_took_all_new = ann_took_all\<lparr>moon := ''new''\<rparr>"

definition ann_took_all_auto :: game where
  "ann_took_all_auto = ann_took_all\<lparr>moon := ''auto'', scores := (\<lambda>_. 10)(''Ann'' := 90)\<rparr>"

text \<open>Scored the automatic way with everybody at 10 points, and with Bob at 80.\<close>

definition ann_took_all_auto_low :: game where
  "ann_took_all_auto_low = ann_took_all\<lparr>moon := ''auto'', scores := (\<lambda>_. 10)\<rparr>"

definition ann_took_all_auto_high :: game where
  "ann_took_all_auto_high = ann_took_all\<lparr>moon := ''auto'', scores := (\<lambda>_. 10)(''Bob'' := 80)\<rparr>"

text \<open>
  Rounds with the jack of diamonds as the bonus card, so that \<^verbatim>\<open>max_score\<close> is
  13 + 13 - 10. In the first Ann took the queen of spades and the ace of hearts, Bob the
  other hearts and the jack of diamonds. In the second Ann took every heart and the queen
  of spades, Bob the jack of diamonds. In the third Ann took the queen of spades and three
  hearts, Bob the jack of diamonds and the other hearts. In \<open>bonus_shooter\<close> Ann took every
  heart, the queen of spades and the jack of diamonds.
\<close>

definition other_cards :: "card list" where
  "other_cards = filter (\<lambda>c. suit c \<noteq> CHR ''H'' \<and> c \<noteq> QS \<and> c \<noteq> JD) standard_deck"

definition bonus_table :: game where
  "bonus_table = table\<lparr>hands := (\<lambda>_. []), bonus := Some JD, max_score := 16\<rparr>"

definition bonus_shooter :: game where
  "bonus_shooter = bonus_table\<lparr>taken := (\<lambda>_. [])(''Ann'' := JD # all_penalties @ take 1 other_cards,
     ''Bob'' := take 4 (drop 1 other_cards),
     ''Cat'' := take 16 (drop 5 other_cards), ''Dan'' := drop 21 other_cards)\<rparr>"

definition bonus_round :: game where
  "bonus_round = bonus_table\<lparr>taken := (\<lambda>_. [])(''Ann'' := [QS, AH] @ take 2 other_cards,
     ''Bob'' := JD # butlast all_hearts @ take 3 (drop 2 other_cards),
     ''Cat'' := take 16 (drop 5 other_cards), ''Dan'' := drop 21 other_cards)\<rparr>"

definition bonus_all_penalties :: game where
  "bonus_all_penalties = bonus_table\<lparr>taken := (\<lambda>_. [])(''Ann'' := all_penalties @ take 2 other_cards,
     ''Bob'' := JD # take 3 (drop 2 other_cards),
     ''Cat'' := take 16 (drop 5 other_cards), ''Dan'' := drop 21 other_cards)\<rparr>"

definition bonus_sixteen :: game where
  "bonus_sixteen = bonus_table\<lparr>taken := (\<lambda>_. [])(''Ann'' := QS # take 3 all_hearts,
     ''Bob'' := JD # drop 3 all_hearts @ take 5 other_cards,
     ''Cat'' := take 16 (drop 5 other_cards), ''Dan'' := drop 21 other_cards)\<rparr>"

text \<open>
  A round with five points off for winning no trick, in which Bob won none and nobody took
  all the penalty cards.
\<close>

definition no_tricks_round :: game where
  "no_tricks_round = table\<lparr>hands := (\<lambda>_. []), no_tricks := 5,
     taken := (\<lambda>_. [])(''Ann'' := [QS, AH, JD] @ take 1 other_cards,
       ''Cat'' := butlast all_hearts @ take 4 (drop 1 other_cards),
       ''Dan'' := drop 5 other_cards)\<rparr>"

section \<open>Auxiliary facts\<close>

lemma bind_err_Inr_iff: "bind_err m f = Inr y \<longleftrightarrow> (\<exists>x. m = Inr x \<and> f x = Inr y)"
  by (cases m) (simp_all add: bind_err_def)

lemma py_index_mem:
  "x \<in> set xs \<Longrightarrow>
     \<exists>i. py_index xs x = Inr (int i) \<and> i < length xs \<and> xs ! i = x \<and> (\<forall>j<i. xs ! j \<noteq> x)"
proof (induction xs)
  case Nil
  then show ?case by simp
next
  case (Cons y ys)
  show ?case
  proof (cases "y = x")
    case True
    then show ?thesis by (intro exI [of _ 0]) simp
  next
    case False
    with Cons obtain i where i: "py_index ys x = Inr (int i)" "i < length ys" "ys ! i = x"
      "\<forall>j<i. ys ! j \<noteq> x" by auto
    show ?thesis
    proof (intro exI [of _ "Suc i"] conjI allI impI)
      show "py_index (y # ys) x = Inr (int (Suc i))"
        using False i(1) by (simp add: bind_err_def)
      show "Suc i < length (y # ys)" using i(2) by simp
      show "(y # ys) ! Suc i = x" using i(3) by simp
      fix j assume "j < Suc i"
      then show "(y # ys) ! j \<noteq> x" using False i(4) by (cases j) auto
    qed
  qed
qed

lemma sorted_last_max:
  "sorted (map f ys) \<Longrightarrow> y \<in> set ys \<Longrightarrow> f y \<le> f (last ys)"
  by (induction ys) (auto split: if_splits)

lemma last_sort_key_max:
  assumes "xs \<noteq> []"
  shows "last (sort_key f xs) \<in> set xs \<and> (\<forall>x\<in>set xs. f x \<le> f (last (sort_key f xs)))"
proof -
  have ne: "sort_key f xs \<noteq> []" using assms by (metis length_0_conv length_sort)
  then have "last (sort_key f xs) \<in> set (sort_key f xs)" by (rule last_in_set)
  then have 1: "last (sort_key f xs) \<in> set xs" by simp
  have "\<forall>x\<in>set (sort_key f xs). f x \<le> f (last (sort_key f xs))"
    using sorted_last_max [of f "sort_key f xs"] by simp
  with 1 show ?thesis by simp
qed

lemma py_nth_in_range:
  "0 \<le> i \<Longrightarrow> i < int (length xs) \<Longrightarrow> py_nth xs i = Inr (xs ! nat i)"
  by (simp add: py_nth_def)

text \<open>What a successful trick_won returns.\<close>

lemma trick_won_Inr:
  assumes "trick g = led # rest" and "players g \<noteq> []"
  shows "\<exists>k. k < length (trick g) \<and>
           suit (trick g ! k) = suit led \<and>
           (\<forall>c\<in>set (trick g). suit c = suit led \<longrightarrow> rank_num c \<le> rank_num (trick g ! k)) \<and>
           (\<forall>j<k. trick g ! j \<noteq> trick g ! k) \<and>
           trick_won g =
             Inr (take_trick (players g ! nat ((player_index g + 1 + int k) mod int (length (players g)))) g,
                  (player_index g + 1 + int k) mod int (length (players g)))"
proof -
  define sc where "sc = filter (\<lambda>c. suit c = suit led) (trick g)"
  define wc where "wc = last (sort_key rank_num sc)"
  have "sc \<noteq> []" using assms(1) by (simp add: sc_def)
  from last_sort_key_max [OF this, of rank_num]
  have wc_in: "wc \<in> set sc" and wc_max: "\<forall>x\<in>set sc. rank_num x \<le> rank_num wc"
    by (simp_all add: wc_def)
  from wc_in have "wc \<in> set (trick g)" and wc_suit: "suit wc = suit led" by (simp_all add: sc_def)
  from py_index_mem [OF this(1)] obtain k where k: "py_index (trick g) wc = Inr (int k)"
    "k < length (trick g)" "trick g ! k = wc" "\<forall>j<k. trick g ! j \<noteq> wc" by blast
  define w where "w = (player_index g + 1 + int k) mod int (length (players g))"
  have wr: "0 \<le> w" "w < int (length (players g))" using assms(2) by (simp_all add: w_def)
  have nth: "py_nth (players g) w = Inr (players g ! nat w)" using wr by (rule py_nth_in_range)
  have eq: "trick_won g = Inr (take_trick (players g ! nat w) g, w)"
    unfolding trick_won_def assms(1) list.case Let_def
    using k(1) assms(2) nth
    by (simp add: bind_err_def sc_def [symmetric] wc_def [symmetric] assms(1) [symmetric] w_def [symmetric])
  show ?thesis
    apply (intro exI [of _ k])
    using k wc_suit wc_max eq
    by (auto simp: w_def sc_def)
qed

lemma trick_won_InrD:
  assumes "trick_won g = Inr (g', w)"
  shows "trick g \<noteq> [] \<and> players g \<noteq> [] \<and> 0 \<le> w \<and> w < int (length (players g)) \<and>
         g' = take_trick (players g ! nat w) g"
proof -
  from assms obtain led rest where tr: "trick g = led # rest"
    by (cases "trick g") (simp_all add: trick_won_def)
  have pl: "players g \<noteq> []"
    using assms tr by (auto simp: trick_won_def bind_err_def Let_def split: if_splits sum.splits)
  from trick_won_Inr [OF tr pl] assms tr pl show ?thesis by auto
qed

lemma trick_winner_continues:
  assumes "trick_won g = Inr (g1, w)" and "hands g (human g) \<noteq> []"
  shows "trick_winner shuffled g = Inr (g1\<lparr>player_index := w - 1\<rparr>)"
proof -
  from trick_won_InrD [OF assms(1)] have "g1 = take_trick (players g ! nat w) g" by simp
  then have "hands g1 (human g1) = hands g (human g)" by (simp add: take_trick_def Let_def)
  with assms show ?thesis by (simp add: trick_winner_def bind_err_def)
qed

lemma do_play_keeps:
  assumes "do_play arguments g = Inr (r, g')"
  shows "hearts_broken g' = hearts_broken g \<and> deck_cards g' = deck_cards g \<and>
         taken g' = taken g \<and> (r \<noteq> None \<longrightarrow> g' = g)"
  using assms
  by (auto simp: do_play_def bind_err_def Let_def shift_def
           split: sum.splits if_splits option.splits list.splits)

section \<open>Dealer's choice of the pass direction\<close>

lemma dealers_choice_raises:
  assumes "pass_dir g = DealersChoice None" and "length (players g) \<notin> {4, 6}"
  shows "set_pass g = Inl NameError"
  using assms by (simp add: set_pass_def next_pass_dir_def dealers_choice_start_def bind_err_def)

text \<open>
  Claim C7. The claim: whatever the number of players, a dealer's choice outside the
  valid directions is rejected with a recoverable error and the dealer is asked again, and
  nothing the dealer answers is fatal. The code: at a table of three whose dealer is about
  to answer "across", \<^verbatim>\<open>set_pass\<close> starts the generator of \<^verbatim>\<open>dealers_choice\<close>, which raises
  NameError on \<^verbatim>\<open>valid[:-1]\<close> before the dealer is asked anything.
\<close>

theorem dealers_choice_three_players_fatal:
  "length (players table_of_three) = 3 \<and> answers table_of_three = [''across''] \<and>
   set_pass table_of_three = Inl NameError"
  by (simp add: set_pass_def next_pass_dir_def dealers_choice_start_def table_of_three_def
        table_def bind_err_def)

section \<open>Leading a trick\<close>

lemmas play_example_defs =
  table_def py_nth_def card_re_match_def is_space_def upper_def upper_char_def card_is_def
  up_text_def

text \<open>
  Claim C10. With jokers barred from leading and hearts not broken, a leader whose cards
  are all hearts or jokers may lead any card held, a heart as well as a joker: the list of
  playable cards, the hand without its jokers and its hearts, is empty, and both checks of
  \<^verbatim>\<open>do_play\<close> need a playable card to reject the lead. The card leaves the hand and starts
  the trick.
\<close>

theorem lead_from_hearts_and_jokers:
  assumes "py_nth (players g) (player_index g) = Inr player"
    and "card_re_match arguments" and "phase g = ''trick''" and "trick g = []"
    and "jokers_follow g" and "\<not> hearts_broken g"
    and "\<forall>c\<in>set (hands g player). suit c = CHR ''H'' \<or> rank c = CHR ''X''"
    and "find (\<lambda>c. card_is c (upper arguments)) (hands g player) = Some to_play"
  shows "do_play arguments g =
    Inr (None, g\<lparr>hands := (hands g)(player := remove1 to_play (hands g player)),
                 trick := [to_play]\<rparr>)"
proof -
  have "filter (\<lambda>c. suit c \<noteq> CHR ''H'') (filter (\<lambda>c. rank c \<noteq> CHR ''X'') (hands g player)) = []"
    using assms(7) by (auto simp: filter_empty_conv)
  then show ?thesis
    using assms by (simp add: do_play_def bind_err_def shift_def)
qed

theorem lead_from_hearts_and_jokers_witness:
  "jokers_follow ann_heart_and_joker \<and> \<not> hearts_broken ann_heart_and_joker \<and>
   hands ann_heart_and_joker ''Ann'' = [AH, XC] \<and>
   do_play ''ah'' ann_heart_and_joker =
     Inr (None, ann_heart_and_joker\<lparr>hands := (hands ann_heart_and_joker)(''Ann'' := [XC]),
                                    trick := [AH]\<rparr>) \<and>
   do_play ''xc'' ann_heart_and_joker =
     Inr (None, ann_heart_and_joker\<lparr>hands := (hands ann_heart_and_joker)(''Ann'' := [AH]),
                                    trick := [XC]\<rparr>)"
proof -
  let ?g = ann_heart_and_joker
  have p: "py_nth (players ?g) (player_index ?g) = Inr ''Ann''"
    by (simp add: ann_heart_and_joker_def play_example_defs)
  have m: "card_re_match ''ah''" "card_re_match ''xc''"
    by (simp_all add: play_example_defs)
  have st: "phase ?g = ''trick''" "trick ?g = []" "jokers_follow ?g" "\<not> hearts_broken ?g"
    by (simp_all add: ann_heart_and_joker_def table_def)
  have h: "\<forall>c\<in>set (hands ?g ''Ann''). suit c = CHR ''H'' \<or> rank c = CHR ''X''"
    by (simp add: ann_heart_and_joker_def)
  have f: "find (\<lambda>c. card_is c (upper ''ah'')) (hands ?g ''Ann'') = Some AH"
    "find (\<lambda>c. card_is c (upper ''xc'')) (hands ?g ''Ann'') = Some XC"
    by (simp_all add: ann_heart_and_joker_def play_example_defs)
  note lead_from_hearts_and_jokers [OF p m(1) st h f(1)]
    lead_from_hearts_and_jokers [OF p m(2) st h f(2)]
  then show ?thesis by (simp add: ann_heart_and_joker_def table_def)
qed

text \<open>
  Claim C6, as stated, fails: the leader holds a card that is not a heart (the joker XC),
  hearts are not broken, and the lead of the ace of hearts is accepted, because jokers are
  barred from leading and so are no alternative.
\<close>

theorem heart_lead_counterexample:
  "XC \<in> set (hands ann_heart_and_joker ''Ann'') \<and> suit XC \<noteq> CHR ''H'' \<and>
   \<not> hearts_broken ann_heart_and_joker \<and> trick ann_heart_and_joker = [] \<and>
   do_play ''AH'' ann_heart_and_joker =
     Inr (None, ann_heart_and_joker\<lparr>hands := (hands ann_heart_and_joker)(''Ann'' := [XC]),
                                    trick := [AH]\<rparr>)"
  by (simp add: ann_heart_and_joker_def play_example_defs do_play_def bind_err_def shift_def)

text \<open>
  Claim C6, amended. A lead of a card the leader holds (not a joker): if the card is a
  heart, hearts are not broken, and the leader holds a card that is neither a heart nor,
  when jokers may not lead, a joker, the play is rejected with the heart-lead error and the
  game is unchanged; otherwise the lead is accepted, the card leaves the hand and starts
  the trick. So with hearts not broken and the hand [AH, 2C], AH is rejected and 2C
  accepted.
\<close>

theorem heart_lead_legality:
  assumes "py_nth (players g) (player_index g) = Inr player"
    and "card_re_match arguments" and "phase g = ''trick''" and "trick g = []"
    and "find (\<lambda>c. card_is c (upper arguments)) (hands g player) = Some to_play"
    and "rank to_play \<noteq> CHR ''X''"
  shows "do_play arguments g =
     (if suit to_play = CHR ''H'' \<and> \<not> hearts_broken g \<and>
         (\<exists>c\<in>set (hands g player).
            suit c \<noteq> CHR ''H'' \<and> (jokers_follow g \<longrightarrow> rank c \<noteq> CHR ''X''))
      then Inr (Some HeartLead, g)
      else Inr (None, g\<lparr>hands := (hands g)(player := remove1 to_play (hands g player)),
                        trick := [to_play]\<rparr>))"
proof -
  let ?playable = "(if \<not> hearts_broken g
      then filter (\<lambda>c. suit c \<noteq> CHR ''H'')
             (if jokers_follow g then filter (\<lambda>c. rank c \<noteq> CHR ''X'') (hands g player)
              else hands g player)
      else (if jokers_follow g then filter (\<lambda>c. rank c \<noteq> CHR ''X'') (hands g player)
            else hands g player))"
  have pl: "\<not> hearts_broken g \<Longrightarrow> ?playable \<noteq> [] \<longleftrightarrow>
      (\<exists>c\<in>set (hands g player). suit c \<noteq> CHR ''H'' \<and> (jokers_follow g \<longrightarrow> rank c \<noteq> CHR ''X''))"
    by (auto simp: filter_empty_conv)
  show ?thesis
  proof (cases "suit to_play = CHR ''H'' \<and> \<not> hearts_broken g")
    case True
    with pl have "?playable \<noteq> [] \<longleftrightarrow>
      (\<exists>c\<in>set (hands g player). suit c \<noteq> CHR ''H'' \<and> (jokers_follow g \<longrightarrow> rank c \<noteq> CHR ''X''))"
      by blast
    with True assms show ?thesis
      by (simp add: do_play_def bind_err_def shift_def Let_def)
  next
    case False
    with assms show ?thesis
      by (auto simp: do_play_def bind_err_def shift_def Let_def)
  qed
qed

theorem heart_lead_legality_witness:
  "\<not> hearts_broken ann_leads \<and> hands ann_leads ''Ann'' = [AH, C2] \<and>
   do_play ''AH'' ann_leads = Inr (Some HeartLead, ann_leads) \<and>
   do_play ''2C'' ann_leads =
     Inr (None, ann_leads\<lparr>hands := (hands ann_leads)(''Ann'' := [AH]), trick := [C2]\<rparr>)"
proof -
  let ?g = ann_leads
  have p: "py_nth (players ?g) (player_index ?g) = Inr ''Ann''"
    by (simp add: ann_leads_def play_example_defs)
  have m: "card_re_match ''AH''" "card_re_match ''2C''"
    by (simp_all add: play_example_defs)
  have st: "phase ?g = ''trick''" "trick ?g = []"
    by (simp_all add: ann_leads_def table_def)
  have f: "find (\<lambda>c. card_is c (upper ''AH'')) (hands ?g ''Ann'') = Some AH"
    "find (\<lambda>c. card_is c (upper ''2C'')) (hands ?g ''Ann'') = Some C2"
    by (simp_all add: ann_leads_def play_example_defs)
  have r: "rank AH \<noteq> CHR ''X''" "rank C2 \<noteq> CHR ''X''" by simp_all
  note heart_lead_legality [OF p m(1) st f(1) r(1)] heart_lead_legality [OF p m(2) st f(2) r(2)]
  then show ?thesis by (simp add: ann_leads_def table_def)
qed

section \<open>Resolving a trick\<close>

lemma take_trick_fields:
  "trick (take_trick winner g) = []"
  "hands (take_trick winner g) = hands g"
  "players (take_trick winner g) = players g"
  "hearts_broken (take_trick winner g) = (hearts_broken g \<or> (\<exists>c\<in>set (trick g). c \<in> breakers g))"
  "p \<noteq> winner \<Longrightarrow> taken (take_trick winner g) p = taken g p"
  by (auto simp: take_trick_def Let_def)

lemma take_trick_kitty:
  "deck_cards g \<noteq> [] \<and> (kitty g = ''first'' \<or> (\<exists>c\<in>set (trick g). suit c = CHR ''H'')) \<Longrightarrow>
     taken (take_trick winner g) winner = taken g winner @ trick g @ deck_cards g \<and>
     deck_cards (take_trick winner g) = []"
  "deck_cards g = [] \<or> kitty g \<noteq> ''first'' \<and> \<not> (\<exists>c\<in>set (trick g). suit c = CHR ''H'') \<Longrightarrow>
     taken (take_trick winner g) winner = taken g winner @ trick g \<and>
     deck_cards (take_trick winner g) = deck_cards g"
  by (auto simp: take_trick_def Let_def filter_empty_conv)

lemma trick_winner_continuing:
  assumes "trick_winner shuffled g = Inr g'" and "hands g (human g) \<noteq> []"
  shows "\<exists>w. trick_won g = Inr (take_trick (players g ! nat w) g, w) \<and>
             g' = (take_trick (players g ! nat w) g)\<lparr>player_index := w - 1\<rparr>"
proof -
  from assms(1) obtain g1 w where tw: "trick_won g = Inr (g1, w)"
    by (cases "trick_won g") (auto simp: trick_winner_def bind_err_def)
  from trick_won_InrD [OF tw] have g1: "g1 = take_trick (players g ! nat w) g" by simp
  from trick_winner_continues [OF tw assms(2), of shuffled] assms(1)
  have "g' = g1\<lparr>player_index := w - 1\<rparr>" by simp
  with tw g1 show ?thesis by blast
qed

text \<open>
  Claim C5. For a trick with a card led, at a table with players, \<^verbatim>\<open>trick_winner\<close> finds a
  winner: some card \<open>k\<close> of the trick is of the suit led and has the highest \<^verbatim>\<open>rank_num\<close> among
  the cards of the suit led (the first of equal cards), so that a card off the suit led
  never wins; the winner is seat \<open>w\<close>, the one that played card \<open>k\<close> (the player at
  \<^verbatim>\<open>player_index\<close> played last, so the leader sits one further); the cards of the trick are
  appended to the winner's taken cards, followed by the kitty when it is awarded, the other
  players' taken cards are unchanged and the trick is cleared. In a round that goes on (the
  human still holds cards) that is all \<^verbatim>\<open>trick_winner\<close> does but for setting \<^verbatim>\<open>player_index\<close>
  to \<open>w - 1\<close>: the game loop adds one, so that seat \<open>w\<close> leads the next trick. In the trick
  [5H, KH, 2H, QS] the player of KH wins.
\<close>

theorem trick_winner_highest_of_suit_led:
  assumes "trick g = led # rest" and "players g \<noteq> []"
  shows "\<exists>k w g1. trick_won g = Inr (g1, w) \<and>
           k < length (trick g) \<and> suit (trick g ! k) = suit led \<and>
           (\<forall>c\<in>set (trick g). suit c = suit led \<longrightarrow> rank_num c \<le> rank_num (trick g ! k)) \<and>
           (\<forall>j<k. trick g ! j \<noteq> trick g ! k) \<and>
           w = (player_index g + 1 + int k) mod int (length (players g)) \<and>
           (\<exists>kitty_cards\<in>{[], deck_cards g}.
              taken g1 (players g ! nat w) = taken g (players g ! nat w) @ trick g @ kitty_cards) \<and>
           (\<forall>p. p \<noteq> players g ! nat w \<longrightarrow> taken g1 p = taken g p) \<and>
           trick g1 = [] \<and> hands g1 = hands g \<and>
           (hands g (human g) \<noteq> [] \<longrightarrow>
              trick_winner shuffled g = Inr (g1\<lparr>player_index := w - 1\<rparr>))"
proof -
  from trick_won_Inr [OF assms(1,2)] obtain k where
    k: "k < length (trick g)" "suit (trick g ! k) = suit led"
      "\<forall>c\<in>set (trick g). suit c = suit led \<longrightarrow> rank_num c \<le> rank_num (trick g ! k)"
      "\<forall>j<k. trick g ! j \<noteq> trick g ! k"
    and tw: "trick_won g =
      Inr (take_trick (players g ! nat ((player_index g + 1 + int k) mod int (length (players g)))) g,
           (player_index g + 1 + int k) mod int (length (players g)))"
    by blast
  define w where "w = (player_index g + 1 + int k) mod int (length (players g))"
  define g1 where "g1 = take_trick (players g ! nat w) g"
  have tw': "trick_won g = Inr (g1, w)" using tw by (simp add: g1_def w_def)
  have res: "hands g (human g) \<noteq> [] \<longrightarrow>
      trick_winner shuffled g = Inr (g1\<lparr>player_index := w - 1\<rparr>)"
    using trick_winner_continues [OF tw'] by blast
  have kit: "\<exists>kitty_cards\<in>{[], deck_cards g}.
      taken g1 (players g ! nat w) = taken g (players g ! nat w) @ trick g @ kitty_cards"
    using take_trick_kitty [of g "players g ! nat w"] by (auto simp: g1_def)
  have rest: "\<forall>p. p \<noteq> players g ! nat w \<longrightarrow> taken g1 p = taken g p"
    "trick g1 = []" "hands g1 = hands g"
    by (simp_all add: g1_def take_trick_fields)
  show ?thesis
    apply (intro exI [of _ k] exI [of _ w] exI [of _ g1])
    using tw' res k kit rest w_def by blast
qed

theorem trick_winner_highest_of_suit_led_witness:
  "trick trick_example = [H5, KH, H2, QS] \<and> players trick_example ! 1 = ''Bob'' \<and>
   trick_won trick_example =
     Inr (trick_example\<lparr>taken := (taken trick_example)(''Bob'' := [H5, KH, H2, QS]),
                        hearts_broken := True, trick := []\<rparr>, 1) \<and>
   trick_winner [] trick_example =
     Inr (trick_example\<lparr>taken := (taken trick_example)(''Bob'' := [H5, KH, H2, QS]),
                        hearts_broken := True, trick := [], player_index := 0\<rparr>)"
proof -
  have h: "trick trick_example = H5 # [KH, H2, QS]" "players trick_example \<noteq> []"
    by (simp_all add: trick_example_def table_def)
  have ev: "trick trick_example = [H5, KH, H2, QS] \<and> players trick_example ! 1 = ''Bob'' \<and>
     trick_won trick_example =
       Inr (trick_example\<lparr>taken := (taken trick_example)(''Bob'' := [H5, KH, H2, QS]),
                          hearts_broken := True, trick := []\<rparr>, 1) \<and>
     trick_winner [] trick_example =
       Inr (trick_example\<lparr>taken := (taken trick_example)(''Bob'' := [H5, KH, H2, QS]),
                          hearts_broken := True, trick := [], player_index := 0\<rparr>)"
    by (simp add: trick_winner_def trick_won_def take_trick_def trick_example_def table_def
          bind_err_def py_nth_def rank_num_def ranks_def all_hearts_def Let_def)
  show ?thesis
    using trick_winner_highest_of_suit_led [OF h, of "[]"] by - (rule ev)
qed

section \<open>The kitty\<close>

lemma round_step_deck_cards:
  assumes "round_step g g'" and "deck_cards g = []"
  shows "deck_cards g' = []"
  using assms
proof cases
  case (play arguments r)
  with do_play_keeps [OF play(1)] assms(2) show ?thesis by simp
next
  case (resolve g1 w shuffled)
  from trick_won_InrD [OF resolve(1)] have g1: "g1 = take_trick (players g ! nat w) g" by simp
  then have "hands g (human g) \<noteq> []" using resolve(2) by (simp add: take_trick_def Let_def)
  from trick_winner_continuing [OF resolve(3) this] assms(2) show ?thesis
    using take_trick_kitty(2) [of g] by auto
next
  case (turn i)
  with assms(2) show ?thesis by simp
qed

lemma round_steps_deck_cards:
  "round_step\<^sup>*\<^sup>* g g' \<Longrightarrow> deck_cards g = [] \<Longrightarrow> deck_cards g' = []"
  by (induction rule: rtranclp_induct) (auto dest: round_step_deck_cards)

text \<open>The two settings of the extras option that make a kitty.\<close>

lemma handle_opt_deal_kitty:
  "handle_opt_deal ''first'' g = Inr (g\<lparr>kitty := ''first''\<rparr>)"
  "handle_opt_deal ''heart'' g = Inr (g\<lparr>kitty := ''heart''\<rparr>)"
  by (simp_all add: handle_opt_deal_def)

text \<open>
  Claim C3. With a kitty (cards left in the deck after the deal), the trick resolved by
  \<^verbatim>\<open>trick_winner\<close> gives it to the winner, after the cards of the trick, and empties it:
  under 'first' at once, so at the first trick of the round; under 'heart' when the trick
  holds a heart and not before, so at the first trick with a heart. Once the kitty is
  empty, no step of the round refills it and a resolved trick adds only its own cards, so
  that the kitty is awarded at most once in a round. Playing a card touches neither the
  kitty nor the taken cards.
\<close>

theorem kitty_awarded_once:
  "(trick_won g = Inr (g', w) \<and> deck_cards g \<noteq> [] \<and> kitty g = ''first'' \<longrightarrow>
      taken g' (players g ! nat w) = taken g (players g ! nat w) @ trick g @ deck_cards g \<and>
      deck_cards g' = []) \<and>
   (trick_won g = Inr (g', w) \<and> deck_cards g \<noteq> [] \<and> kitty g = ''heart'' \<longrightarrow>
      (if \<exists>c\<in>set (trick g). suit c = CHR ''H''
       then taken g' (players g ! nat w) = taken g (players g ! nat w) @ trick g @ deck_cards g \<and>
            deck_cards g' = []
       else taken g' (players g ! nat w) = taken g (players g ! nat w) @ trick g \<and>
            deck_cards g' = deck_cards g)) \<and>
   (trick_won g = Inr (g', w) \<and> deck_cards g = [] \<longrightarrow>
      taken g' (players g ! nat w) = taken g (players g ! nat w) @ trick g \<and> deck_cards g' = []) \<and>
   (round_step\<^sup>*\<^sup>* g g2 \<and> deck_cards g = [] \<longrightarrow> deck_cards g2 = []) \<and>
   (do_play arguments g = Inr (r, g3) \<longrightarrow> deck_cards g3 = deck_cards g \<and> taken g3 = taken g)"
proof (intro conjI impI)
  assume a: "trick_won g = Inr (g', w) \<and> deck_cards g \<noteq> [] \<and> kitty g = ''first''"
  with trick_won_InrD [of g g' w] have "g' = take_trick (players g ! nat w) g" by simp
  with a take_trick_kitty(1) [of g "players g ! nat w"]
  show "taken g' (players g ! nat w) = taken g (players g ! nat w) @ trick g @ deck_cards g"
    and "deck_cards g' = []" by simp_all
next
  assume a: "trick_won g = Inr (g', w) \<and> deck_cards g \<noteq> [] \<and> kitty g = ''heart''"
  with trick_won_InrD [of g g' w] have "g' = take_trick (players g ! nat w) g" by simp
  with a take_trick_kitty [of g "players g ! nat w"]
  show "if \<exists>c\<in>set (trick g). suit c = CHR ''H''
       then taken g' (players g ! nat w) = taken g (players g ! nat w) @ trick g @ deck_cards g \<and>
            deck_cards g' = []
       else taken g' (players g ! nat w) = taken g (players g ! nat w) @ trick g \<and>
            deck_cards g' = deck_cards g" by simp
next
  assume a: "trick_won g = Inr (g', w) \<and> deck_cards g = []"
  with trick_won_InrD [of g g' w] have "g' = take_trick (players g ! nat w) g" by simp
  with a take_trick_kitty(2) [of g "players g ! nat w"]
  show "taken g' (players g ! nat w) = taken g (players g ! nat w) @ trick g"
    and "deck_cards g' = []" by simp_all
next
  assume "round_step\<^sup>*\<^sup>* g g2 \<and> deck_cards g = []"
  then show "deck_cards g2 = []" using round_steps_deck_cards by blast
next
  assume "do_play arguments g = Inr (r, g3)"
  from do_play_keeps [OF this] show "deck_cards g3 = deck_cards g" and "taken g3 = taken g"
    by simp_all
qed

lemmas trick_example_defs =
  trick_won_def take_trick_def table_def bind_err_def py_nth_def rank_num_def ranks_def
  all_hearts_def Let_def

theorem kitty_awarded_once_witness:
  "trick_won kitty_first = Inr (take_trick ''Bob'' kitty_first, 1) \<and>
   taken (take_trick ''Bob'' kitty_first) ''Bob'' = [C3, C9, C5, C2] \<and>
   deck_cards (take_trick ''Bob'' kitty_first) = [] \<and>
   trick_won kitty_heart = Inr (take_trick ''Bob'' kitty_heart, 1) \<and>
   taken (take_trick ''Bob'' kitty_heart) ''Bob'' = [C3, C9, C5] \<and>
   deck_cards (take_trick ''Bob'' kitty_heart) = [C2] \<and>
   trick_won kitty_heart_played = Inr (take_trick ''Cat'' kitty_heart_played, 2) \<and>
   taken (take_trick ''Cat'' kitty_heart_played) ''Cat'' = [C3, AH, C5, C2] \<and>
   deck_cards (take_trick ''Cat'' kitty_heart_played) = []"
proof -
  have e1: "trick_won kitty_first = Inr (take_trick ''Bob'' kitty_first, 1) \<and>
      deck_cards kitty_first \<noteq> [] \<and> kitty kitty_first = ''first''"
    by (simp add: kitty_first_def trick_example_defs)
  have e2: "trick_won kitty_heart = Inr (take_trick ''Bob'' kitty_heart, 1) \<and>
      deck_cards kitty_heart \<noteq> [] \<and> kitty kitty_heart = ''heart''"
    by (simp add: kitty_heart_def kitty_first_def trick_example_defs)
  have e3: "trick_won kitty_heart_played = Inr (take_trick ''Cat'' kitty_heart_played, 2) \<and>
      deck_cards kitty_heart_played \<noteq> [] \<and> kitty kitty_heart_played = ''heart''"
    by (simp add: kitty_heart_played_def kitty_heart_def kitty_first_def trick_example_defs)
  note a1 = kitty_awarded_once [of kitty_first "take_trick ''Bob'' kitty_first" 1,
      THEN conjunct1, THEN mp, OF e1]
  note a2 = kitty_awarded_once [of kitty_heart "take_trick ''Bob'' kitty_heart" 1,
      THEN conjunct2, THEN conjunct1, THEN mp, OF e2]
  note a3 = kitty_awarded_once [of kitty_heart_played "take_trick ''Cat'' kitty_heart_played" 2,
      THEN conjunct2, THEN conjunct1, THEN mp, OF e3]
  have p: "players kitty_first ! Suc 0 = ''Bob''" "players kitty_heart ! Suc 0 = ''Bob''"
    "players kitty_heart_played ! 2 = ''Cat''"
    by (simp_all add: kitty_heart_played_def kitty_heart_def kitty_first_def table_def
          eval_nat_numeral)
  have t: "taken kitty_first = (\<lambda>_. [])" "taken kitty_heart = (\<lambda>_. [])"
    "taken kitty_heart_played = (\<lambda>_. [])"
    "trick kitty_first = [C3, C9, C5]" "trick kitty_heart = [C3, C9, C5]"
    "trick kitty_heart_played = [C3, AH, C5]"
    "deck_cards kitty_first = [C2]" "deck_cards kitty_heart = [C2]"
    "deck_cards kitty_heart_played = [C2]"
    by (simp_all add: kitty_heart_played_def kitty_heart_def kitty_first_def table_def)
  from a1 a2 a3 e1 e2 e3 show ?thesis by (simp add: p t)
qed

section \<open>Breaking hearts\<close>

lemma round_step_hearts_broken:
  assumes "round_step g g'" and "hearts_broken g"
  shows "hearts_broken g'"
  using assms
proof cases
  case (play arguments r)
  with do_play_keeps [OF play(1)] assms(2) show ?thesis by simp
next
  case (resolve g1 w shuffled)
  from trick_won_InrD [OF resolve(1)] have g1: "g1 = take_trick (players g ! nat w) g" by simp
  then have "hands g (human g) \<noteq> []" using resolve(2) by (simp add: take_trick_def Let_def)
  from trick_winner_continuing [OF resolve(3) this] assms(2) show ?thesis
    by (auto simp: take_trick_fields)
next
  case (turn i)
  with assms(2) show ?thesis by simp
qed

lemma round_steps_hearts_broken:
  "round_step\<^sup>*\<^sup>* g g' \<Longrightarrow> hearts_broken g \<Longrightarrow> hearts_broken g'"
  by (induction rule: rtranclp_induct) (auto dest: round_step_hearts_broken)

lemma deal_hearts_broken:
  assumes "deal shuffled g0 = Inr g"
  shows "hearts_broken g = (\<not> (break_hearts g0 \<or> all_break g0))"
  using assms
  by (auto simp: deal_def bind_err_def Let_def split: sum.splits prod.splits)

text \<open>
  Claim C9. A resolved trick leaves \<^verbatim>\<open>hearts_broken\<close> true exactly when it was true before
  or the trick holds a card of the set of breakers; so a breaker in the trick sets the
  flag, and with the flag already set the trick leaves it as it is. This holds for
  \<^verbatim>\<open>trick_winner\<close> up to the clearing of the trick, and for the whole of it in a round that
  goes on. The set of breakers made by \<^verbatim>\<open>handle_opt_score\<close> holds the hearts of the deck;
  with the all-break option it also holds the queen of spades and, when jokers score
  points, the jokers of the deck; without the option it holds nothing else.
\<close>

theorem hearts_broken_by_breakers:
  "(trick_won g = Inr (g', w) \<longrightarrow>
      hearts_broken g' = (hearts_broken g \<or> (\<exists>c\<in>set (trick g). c \<in> breakers g))) \<and>
   (hands g (human g) \<noteq> [] \<and> trick_winner shuffled g = Inr g2 \<longrightarrow>
      hearts_broken g2 = (hearts_broken g \<or> (\<exists>c\<in>set (trick g). c \<in> breakers g))) \<and>
   (handle_opt_score heart_score bonus_text g0 = Inr g1 \<longrightarrow>
      breakers g1 =
        {c \<in> set (deck_cards g0). suit c = CHR ''H''} \<union>
        (if all_break g0
         then insert QS {c \<in> set (deck_cards g0). joker_points g0 \<and> rank c = CHR ''X''}
         else {}))"
proof (intro conjI impI)
  assume "trick_won g = Inr (g', w)"
  from trick_won_InrD [OF this]
  show "hearts_broken g' = (hearts_broken g \<or> (\<exists>c\<in>set (trick g). c \<in> breakers g))"
    by (simp add: take_trick_fields)
next
  assume "hands g (human g) \<noteq> [] \<and> trick_winner shuffled g = Inr g2"
  with trick_winner_continuing [of shuffled g g2]
  show "hearts_broken g2 = (hearts_broken g \<or> (\<exists>c\<in>set (trick g). c \<in> breakers g))"
    by (auto simp: take_trick_fields)
next
  assume "handle_opt_score heart_score bonus_text g0 = Inr g1"
  then show "breakers g1 =
        {c \<in> set (deck_cards g0). suit c = CHR ''H''} \<union>
        (if all_break g0
         then insert QS {c \<in> set (deck_cards g0). joker_points g0 \<and> rank c = CHR ''X''}
         else {})"
    by (auto simp: handle_opt_score_def Let_def split: list.splits if_splits)
qed

theorem hearts_broken_by_breakers_witness:
  "\<not> hearts_broken trick_example \<and> KH \<in> set (trick trick_example) \<and>
   KH \<in> breakers trick_example \<and>
   trick_won trick_example = Inr (take_trick ''Bob'' trick_example, 1) \<and>
   hearts_broken (take_trick ''Bob'' trick_example) \<and>
   trick_won (trick_example\<lparr>hearts_broken := True\<rparr>) =
     Inr (take_trick ''Bob'' (trick_example\<lparr>hearts_broken := True\<rparr>), 1) \<and>
   hearts_broken (take_trick ''Bob'' (trick_example\<lparr>hearts_broken := True\<rparr>)) \<and>
   trick_won kitty_first = Inr (take_trick ''Bob'' kitty_first, 1) \<and>
   \<not> hearts_broken (take_trick ''Bob'' kitty_first) \<and>
   QS \<in> breakers (projr (handle_opt_score ''one'' [] all_break_table)) \<and>
   AH \<in> breakers (projr (handle_opt_score ''one'' [] all_break_table)) \<and>
   C2 \<notin> breakers (projr (handle_opt_score ''one'' [] all_break_table))"
proof -
  have e1: "trick_won trick_example = Inr (take_trick ''Bob'' trick_example, 1)"
    by (simp add: trick_example_def trick_example_defs)
  have e2: "trick_won (trick_example\<lparr>hearts_broken := True\<rparr>) =
      Inr (take_trick ''Bob'' (trick_example\<lparr>hearts_broken := True\<rparr>), 1)"
    by (simp add: trick_example_def trick_example_defs)
  have e3: "trick_won kitty_first = Inr (take_trick ''Bob'' kitty_first, 1)"
    by (simp add: kitty_first_def trick_example_defs)
  have "\<not> isl (handle_opt_score ''one'' [] all_break_table)"
    by (simp add: handle_opt_score_def Let_def)
  then have e4: "handle_opt_score ''one'' [] all_break_table =
      Inr (projr (handle_opt_score ''one'' [] all_break_table))" by simp
  note a1 = hearts_broken_by_breakers [of trick_example "take_trick ''Bob'' trick_example" 1,
      THEN conjunct1, THEN mp, OF e1]
  note a2 = hearts_broken_by_breakers [of "trick_example\<lparr>hearts_broken := True\<rparr>"
      "take_trick ''Bob'' (trick_example\<lparr>hearts_broken := True\<rparr>)" 1,
      THEN conjunct1, THEN mp, OF e2]
  note a3 = hearts_broken_by_breakers [of kitty_first "take_trick ''Bob'' kitty_first" 1,
      THEN conjunct1, THEN mp, OF e3]
  note a4 = hearts_broken_by_breakers [THEN conjunct2, THEN conjunct2, THEN mp, OF e4]
  have d: "deck_cards all_break_table = standard_deck" "all_break all_break_table"
    "\<not> joker_points all_break_table"
    by (simp_all add: all_break_table_def fresh_table_def table_def)
  have s: "\<not> hearts_broken trick_example" "trick trick_example = [H5, KH, H2, QS]"
    "breakers trick_example = set all_hearts"
    "\<not> hearts_broken kitty_first" "trick kitty_first = [C3, C9, C5]"
    "breakers kitty_first = set all_hearts"
    by (simp_all add: trick_example_def kitty_first_def table_def)
  from a1 a2 a3 a4 e1 e2 e3 show ?thesis
    by (simp add: d s all_hearts_def standard_deck_def)
qed

text \<open>
  Claim C2, as stated, fails: with the default options (neither break-hearts nor all-break)
  the deal of the standard deck succeeds and leaves \<^verbatim>\<open>hearts_broken\<close> true.
\<close>

theorem hearts_broken_after_deal_counterexample:
  "\<not> break_hearts default_table \<and> \<not> all_break default_table \<and>
   \<not> isl (deal standard_deck default_table) \<and>
   hearts_broken (projr (deal standard_deck default_table))"
  by code_simp

text \<open>
  Claim C2, amended. Right after the deal \<^verbatim>\<open>hearts_broken\<close> is false when the break-hearts
  or the all-break option is set, and true otherwise; whatever the options, no step of the
  round (a play, a trick resolved in a round that goes on, the move to another player)
  takes the flag from true back to false, so that it changes at most once in a round, from
  false to true.
\<close>

theorem hearts_broken_in_round:
  "(deal shuffled g0 = Inr g \<longrightarrow> hearts_broken g = (\<not> (break_hearts g0 \<or> all_break g0))) \<and>
   (round_step\<^sup>*\<^sup>* g1 g2 \<and> hearts_broken g1 \<longrightarrow> hearts_broken g2)"
  using deal_hearts_broken round_steps_hearts_broken by blast

theorem hearts_broken_in_round_witness:
  "break_hearts fresh_table \<and> \<not> isl (deal standard_deck fresh_table) \<and>
   \<not> hearts_broken (projr (deal standard_deck fresh_table)) \<and>
   \<not> hearts_broken trick_example \<and>
   trick_winner [] trick_example = Inr ((take_trick ''Bob'' trick_example)\<lparr>player_index := 0\<rparr>) \<and>
   hearts_broken ((take_trick ''Bob'' trick_example)\<lparr>player_index := 0\<rparr>) \<and>
   hearts_broken ((take_trick ''Bob'' trick_example)\<lparr>player_index := 1\<rparr>)"
proof -
  have i: "\<not> isl (deal standard_deck fresh_table)" by code_simp
  then have e1: "deal standard_deck fresh_table = Inr (projr (deal standard_deck fresh_table))"
    by simp
  have b: "break_hearts fresh_table" "\<not> hearts_broken trick_example"
    by (simp_all add: fresh_table_def trick_example_def table_def)
  have tw: "trick_won trick_example = Inr (take_trick ''Bob'' trick_example, 1)"
    by (simp add: trick_example_def trick_example_defs)
  have h: "hands trick_example (human trick_example) \<noteq> []"
    by (simp add: trick_example_def table_def)
  have tr: "trick_winner [] trick_example =
      Inr ((take_trick ''Bob'' trick_example)\<lparr>player_index := 0\<rparr>)"
    using trick_winner_continues [OF tw h, of "[]"] by simp
  have hb: "hearts_broken ((take_trick ''Bob'' trick_example)\<lparr>player_index := 0\<rparr>)"
    by (simp add: take_trick_def trick_example_def table_def all_hearts_def Let_def)
  have st: "round_step\<^sup>*\<^sup>* ((take_trick ''Bob'' trick_example)\<lparr>player_index := 0\<rparr>)
      ((take_trick ''Bob'' trick_example)\<lparr>player_index := 1\<rparr>)"
    using round_step.turn [of "(take_trick ''Bob'' trick_example)\<lparr>player_index := 0\<rparr>" 1]
    by (simp add: r_into_rtranclp)
  note a1 = hearts_broken_in_round [THEN conjunct1, THEN mp, OF e1]
  note a2 = hearts_broken_in_round [THEN conjunct2, THEN mp, OF conjI [OF st hb]]
  from a1 a2 i b tr hb show ?thesis by simp
qed

section \<open>Scoring a round\<close>

lemma count_card_bonus:
  assumes "count_card g c t = Inr t'" and "bonus g = Some bc"
    and "suit bc \<noteq> CHR ''H''" and "\<not> card_is bc ''QS''" and "rank bc \<noteq> CHR ''X''"
  shows "(tally_bonus t' \<noteq> None) = (tally_bonus t \<noteq> None \<or> c = bc)"
  using assms by (cases t) (auto split: if_splits option.splits)

lemma count_cards_bonus:
  assumes "count_cards g tk t = Inr t'" and "bonus g = Some bc"
    and "suit bc \<noteq> CHR ''H''" and "\<not> card_is bc ''QS''" and "rank bc \<noteq> CHR ''X''"
  shows "(tally_bonus t' \<noteq> None) = (tally_bonus t \<noteq> None \<or> bc \<in> set tk)"
  using assms(1)
proof (induction tk arbitrary: t)
  case Nil
  then show ?case by simp
next
  case (Cons c cs)
  from Cons.prems obtain t1 where c1: "count_card g c t = Inr t1"
    and cs: "count_cards g cs t1 = Inr t'"
    by (auto simp: bind_err_Inr_iff)
  from count_card_bonus [OF c1 assms(2-5)] Cons.IH [OF cs] show ?case by auto
qed

lemma player_points_bonus:
  "bonus g \<noteq> None \<Longrightarrow>
     player_points g t =
       (if tally_bonus t \<noteq> None then max 0 (player_points (g\<lparr>bonus := None\<rparr>) t - 10)
        else player_points (g\<lparr>bonus := None\<rparr>) t)"
  by (cases t) (simp add: Let_def)

lemma score_loop_Cons:
  assumes "score_loop g (q # qs) (rp, sh) = Inr r"
  shows "\<exists>t. count_cards g (taken g q) (0, 0, 0, 0, None) = Inr t \<and>
           score_loop g qs
             (rp(q := (if taken g q = [] \<and> no_tricks g \<noteq> 0 then - no_tricks g
                       else player_points g t)),
              if shoots g q then q else sh) = Inr r"
proof (cases "count_cards g (taken g q) (0, 0, 0, 0, None)")
  case (Inl e)
  with assms show ?thesis by (simp add: bind_err_def)
next
  case (Inr t)
  have "(if taken g q = [] \<and> no_tricks g \<noteq> 0
         then (rp(q := player_points g t))(q := - no_tricks g)
         else rp(q := player_points g t)) =
        rp(q := (if taken g q = [] \<and> no_tricks g \<noteq> 0 then - no_tricks g
                 else player_points g t))" by simp
  with assms Inr show ?thesis
    by (simp add: bind_err_def Let_def shoots_def)
qed

lemma score_loop_points:
  assumes "score_loop g ps (rp, sh) = Inr (rp', sh')"
  shows "(\<forall>p. p \<notin> set ps \<longrightarrow> rp' p = rp p) \<and>
         (distinct ps \<longrightarrow> (\<forall>p\<in>set ps. \<exists>t. count_cards g (taken g p) (0, 0, 0, 0, None) = Inr t \<and>
            rp' p = (if taken g p = [] \<and> no_tricks g \<noteq> 0 then - no_tricks g
                     else player_points g t)))"
  using assms
proof (induction ps arbitrary: rp sh)
  case Nil
  then show ?case by simp
next
  case (Cons q qs)
  from score_loop_Cons [OF Cons.prems] obtain t where
    t: "count_cards g (taken g q) (0, 0, 0, 0, None) = Inr t"
    and r: "score_loop g qs
             (rp(q := (if taken g q = [] \<and> no_tricks g \<noteq> 0 then - no_tricks g
                       else player_points g t)),
              if shoots g q then q else sh) = Inr (rp', sh')" by blast
  define rp1 where "rp1 = rp(q := (if taken g q = [] \<and> no_tricks g \<noteq> 0 then - no_tricks g
                       else player_points g t))"
  from Cons.IH [OF r] have
    ih1: "\<forall>p. p \<notin> set qs \<longrightarrow> rp' p = rp1 p"
    and ih2: "distinct qs \<longrightarrow> (\<forall>p\<in>set qs. \<exists>t. count_cards g (taken g p) (0, 0, 0, 0, None) = Inr t \<and>
            rp' p = (if taken g p = [] \<and> no_tricks g \<noteq> 0 then - no_tricks g
                     else player_points g t))" unfolding rp1_def by blast+
  show ?case
  proof (intro conjI allI impI ballI)
    fix p assume "p \<notin> set (q # qs)"
    with ih1 show "rp' p = rp p" by (simp add: rp1_def)
  next
    fix p assume d: "distinct (q # qs)" and p: "p \<in> set (q # qs)"
    show "\<exists>t. count_cards g (taken g p) (0, 0, 0, 0, None) = Inr t \<and>
            rp' p = (if taken g p = [] \<and> no_tricks g \<noteq> 0 then - no_tricks g
                     else player_points g t)"
    proof (cases "p = q")
      case True
      with d ih1 have "rp' p = rp1 q" by simp
      with t True show ?thesis by (simp add: rp1_def)
    next
      case False
      with p d ih2 show ?thesis by simp
    qed
  qed
qed

lemma score_loop_shooter:
  assumes "score_loop g ps (rp, sh) = Inr (rp', sh')"
  shows "(sh' = sh \<or> sh' \<in> set ps \<and> shoots g sh') \<and>
         ((\<exists>p\<in>set ps. shoots g p) \<longrightarrow> sh' \<in> set ps \<and> shoots g sh')"
  using assms
proof (induction ps arbitrary: rp sh)
  case Nil
  then show ?case by simp
next
  case (Cons q qs)
  from score_loop_Cons [OF Cons.prems] obtain rp1 where
    r: "score_loop g qs (rp1, if shoots g q then q else sh) = Inr (rp', sh')" by blast
  from Cons.IH [OF r] show ?case by (cases "shoots g q") auto
qed

lemma moon_old_result:
  "distinct ps \<Longrightarrow>
     moon_old sh mv ps rp p = (if p \<in> set ps then (if p = sh then 0 else rp p + mv) else rp p)"
  by (induction ps arbitrary: rp) auto

lemma max_scores_ge:
  "p \<in> set (players g) \<Longrightarrow> scores g p \<le> max_scores g"
  by (simp add: max_scores_def)

lemma score_players_points:
  assumes "score_players g = Inr (rp, sh)" and "distinct (players g)" and "p \<in> set (players g)"
  shows "\<exists>t. count_cards g (taken g p) (0, 0, 0, 0, None) = Inr t \<and>
           rp p = (if taken g p = [] \<and> no_tricks g \<noteq> 0 then - no_tricks g
                   else player_points g t)"
  using score_loop_points [of g "players g" "\<lambda>_. 0" "[]" rp sh] assms
  by (simp add: score_players_def)

lemma score_players_shooter:
  assumes "score_players g = Inr (rp, sh)" and "[] \<notin> set (players g)"
  shows "(sh \<noteq> [] \<longleftrightarrow> (\<exists>p\<in>set (players g). shoots g p)) \<and>
         (sh \<noteq> [] \<longrightarrow> sh \<in> set (players g) \<and> shoots g sh)"
  using score_loop_shooter [of g "players g" "\<lambda>_. 0" "[]" rp sh] assms
  by (auto simp: score_players_def)

text \<open>
  Claim C1, as stated, fails. The jack of diamonds is the bonus card. Ann did not take
  it: her 14 points (the queen of spades and a heart) stay 14, with no 10 subtracted.
  Bob took it: his 12 points (twelve hearts) become 2. The second line scores the same
  cards with no bonus card set.
\<close>

theorem bonus_card_counterexample:
  "bonus bonus_round = Some JD \<and>
   JD \<notin> set (taken bonus_round ''Ann'') \<and> JD \<in> set (taken bonus_round ''Bob'') \<and>
   round_result bonus_round = Inr ([14, 2, 0, 0], []) \<and>
   round_result (bonus_round\<lparr>bonus := None\<rparr>) = Inr ([14, 12, 0, 0], [])"
  by code_simp

text \<open>
  Claim C1, amended. With a bonus card set (a card that is not a heart, the queen of
  spades or a joker), for every player scored by \<^verbatim>\<open>score_players\<close> (and not given the
  no-tricks value): if the bonus card is among the player's taken cards, the round points
  are the points of the cards less 10, floored at 0; if it is not, they are the points of
  the cards, nothing subtracted. The points of the cards are those of the same tally with
  no bonus card set.
\<close>

theorem bonus_card_deduction:
  assumes "score_players g = Inr (rp, sh)" and "distinct (players g)" and "p \<in> set (players g)"
    and "bonus g = Some bc"
    and "suit bc \<noteq> CHR ''H''" and "\<not> card_is bc ''QS''" and "rank bc \<noteq> CHR ''X''"
    and "taken g p \<noteq> [] \<or> no_tricks g = 0"
  shows "\<exists>t. count_cards g (taken g p) (0, 0, 0, 0, None) = Inr t \<and>
           rp p = (if bc \<in> set (taken g p)
                   then max 0 (player_points (g\<lparr>bonus := None\<rparr>) t - 10)
                   else player_points (g\<lparr>bonus := None\<rparr>) t)"
proof -
  from score_players_points [OF assms(1-3)] assms(8) obtain t where
    t: "count_cards g (taken g p) (0, 0, 0, 0, None) = Inr t" and rp: "rp p = player_points g t"
    by auto
  from count_cards_bonus [OF t assms(4-7)]
  have b: "(tally_bonus t \<noteq> None) = (bc \<in> set (taken g p))" by simp
  from assms(4) have "bonus g \<noteq> None" by simp
  from player_points_bonus [OF this, of t] b rp t show ?thesis by auto
qed

theorem bonus_card_deduction_witness:
  "\<not> isl (score_players bonus_round) \<and>
   JD \<notin> set (taken bonus_round ''Ann'') \<and>
   fst (projr (score_players bonus_round)) ''Ann'' = 14 \<and>
   JD \<in> set (taken bonus_round ''Bob'') \<and>
   fst (projr (score_players bonus_round)) ''Bob'' = 2"
proof -
  have ev: "\<not> isl (score_players bonus_round) \<and>
     JD \<notin> set (taken bonus_round ''Ann'') \<and>
     fst (projr (score_players bonus_round)) ''Ann'' = 14 \<and>
     JD \<in> set (taken bonus_round ''Bob'') \<and>
     fst (projr (score_players bonus_round)) ''Bob'' = 2"
    by code_simp
  then have "\<not> isl (score_players bonus_round)" by (rule conjunct1)
  then have sp: "score_players bonus_round =
      Inr (fst (projr (score_players bonus_round)), snd (projr (score_players bonus_round)))"
    by simp
  have h: "distinct (players bonus_round)" "''Bob'' \<in> set (players bonus_round)"
    "bonus bonus_round = Some JD" "suit JD \<noteq> CHR ''H''" "\<not> card_is JD ''QS''"
    "rank JD \<noteq> CHR ''X''" "taken bonus_round ''Bob'' \<noteq> [] \<or> no_tricks bonus_round = 0"
    by (simp_all add: bonus_round_def bonus_table_def table_def card_is_def up_text_def)
  show ?thesis
    using bonus_card_deduction [OF sp h] by - (rule ev)
qed

lemma adjust_moon_old:
  assumes "sh \<noteq> []" and "moon g = m # ms"
    and "m = CHR ''o'' \<or> m = CHR ''a'' \<and> max_scores g + moon_value g < end_score g"
  shows "adjust_moon g rp sh = Inr (moon_old sh (moon_value g) (remdups (players g)) rp)"
  using assms by (auto simp: adjust_moon_def)

lemma adjust_moon_new:
  assumes "sh \<noteq> []" and "moon g = m # ms"
    and "m \<noteq> CHR ''o''" and "m = CHR ''a'' \<longrightarrow> end_score g \<le> max_scores g + moon_value g"
  shows "adjust_moon g rp sh = Inr (rp(sh := - moon_value g))"
  using assms by (auto simp: adjust_moon_def)

lemma moon_old_players:
  "moon_old sh mv (remdups ps) rp p =
     (if p \<in> set ps then (if p = sh then 0 else rp p + mv) else rp p)"
  using moon_old_result [of "remdups ps" sh mv rp p] by simp

text \<open>
  Claim C4, as stated, fails. With the jack of diamonds as the bonus card \<^verbatim>\<open>max_score\<close> is
  16. Ann took every heart and the queen of spades, 26 points, but not the bonus card:
  nobody is the shooter, Ann scores 26 and the others nothing. Ann took the queen of
  spades and three hearts, 16 points, which is \<^verbatim>\<open>max_score\<close>, but not the bonus card:
  nobody is the shooter either. And with the moon scored the automatic way, Ann at 90
  points and the others at 10, the game ending at 100: the old way would leave Ann at 90
  and take the others to 36, past no threshold, yet the new way is used and Ann scores -26.
\<close>

theorem shoot_the_moon_counterexample:
  "bonus bonus_all_penalties = Some JD \<and> max_score bonus_all_penalties = 16 \<and>
   moon bonus_all_penalties = ''old'' \<and>
   set all_penalties \<subseteq> set (taken bonus_all_penalties ''Ann'') \<and>
   round_result bonus_all_penalties = Inr ([26, 0, 0, 0], []) \<and>
   round_result bonus_sixteen = Inr ([16, 0, 0, 0], []) \<and>
   moon ann_took_all_auto = ''auto'' \<and> end_score ann_took_all_auto = 100 \<and>
   map (scores ann_took_all_auto) (players ann_took_all_auto) = [90, 10, 10, 10] \<and>
   round_result ann_took_all_auto = Inr ([- 26, 0, 0, 0], ''Ann'')"
  by code_simp

text \<open>
  What \<^verbatim>\<open>score_round\<close> does with the shooter named by \<^verbatim>\<open>score_players\<close>, in the terms of
  the test of the source.
\<close>

lemma shooter_adjustment:
  assumes "score_players g = Inr (rp, sh)" and "[] \<notin> set (players g)" and "moon g = m # ms"
  shows "(sh \<noteq> [] \<longleftrightarrow> (\<exists>p\<in>set (players g). shoots g p)) \<and>
         (sh \<noteq> [] \<longrightarrow> sh \<in> set (players g) \<and> shoots g sh \<and>
            (m = CHR ''o'' \<or> m = CHR ''a'' \<and> max_scores g + moon_value g < end_score g \<longrightarrow>
               (\<exists>rp'. adjust_moon g rp sh = Inr rp' \<and> rp' sh = 0 \<and>
                  (\<forall>p\<in>set (players g). p \<noteq> sh \<longrightarrow> rp' p = rp p + moon_value g))) \<and>
            (m = CHR ''n'' \<or>
             m = CHR ''a'' \<and>
               (\<exists>p\<in>set (players g). p \<noteq> sh \<and> end_score g \<le> scores g p + moon_value g) \<longrightarrow>
               adjust_moon g rp sh = Inr (rp(sh := - moon_value g))))"
proof -
  note s = score_players_shooter [OF assms(1,2)]
  have old: "\<exists>rp'. adjust_moon g rp sh = Inr rp' \<and> rp' sh = 0 \<and>
                  (\<forall>p\<in>set (players g). p \<noteq> sh \<longrightarrow> rp' p = rp p + moon_value g)"
    if "sh \<noteq> []" "m = CHR ''o'' \<or> m = CHR ''a'' \<and> max_scores g + moon_value g < end_score g"
  proof -
    from s that(1) have "sh \<in> set (players g)" by simp
    then show ?thesis
      using adjust_moon_old [OF that(1) assms(3) that(2), of rp]
      by (simp add: moon_old_players)
  qed
  have new: "adjust_moon g rp sh = Inr (rp(sh := - moon_value g))"
    if "sh \<noteq> []" "m = CHR ''n'' \<or> m = CHR ''a'' \<and>
        (\<exists>p\<in>set (players g). p \<noteq> sh \<and> end_score g \<le> scores g p + moon_value g)"
  proof -
    have "m \<noteq> CHR ''o''" using that(2) by auto
    moreover have "m = CHR ''a'' \<longrightarrow> end_score g \<le> max_scores g + moon_value g"
    proof
      assume "m = CHR ''a''"
      with that(2) obtain p where "p \<in> set (players g)"
        "end_score g \<le> scores g p + moon_value g" by auto
      with max_scores_ge [of p g] show "end_score g \<le> max_scores g + moon_value g" by linarith
    qed
    ultimately show ?thesis by (rule adjust_moon_new [OF that(1) assms(3)])
  qed
  from s old new show ?thesis by blast
qed

text \<open>
  With a bonus card that is not a heart, the queen of spades or a joker, the test of the
  source for a shooter says: the unadjusted points equal \<^verbatim>\<open>max_score\<close> and the bonus card,
  if one is set, is among the taken cards.
\<close>

lemma shoots_iff_took_bonus:
  assumes "case bonus g of None \<Rightarrow> True
           | Some bc \<Rightarrow> suit bc \<noteq> CHR ''H'' \<and> \<not> card_is bc ''QS'' \<and> rank bc \<noteq> CHR ''X''"
  shows "shoots g p \<longleftrightarrow>
     (\<exists>t. count_cards g (taken g p) (0, 0, 0, 0, None) = Inr t \<and>
          player_points g t = max_score g \<and>
          (case bonus g of None \<Rightarrow> True | Some bc \<Rightarrow> bc \<in> set (taken g p)))"
proof (cases "count_cards g (taken g p) (0, 0, 0, 0, None)")
  case (Inl e)
  then show ?thesis by (simp add: shoots_def)
next
  case (Inr t)
  show ?thesis
  proof (cases "bonus g")
    case None
    with Inr show ?thesis by (simp add: shoots_def)
  next
    case (Some bc)
    with assms have "suit bc \<noteq> CHR ''H''" "\<not> card_is bc ''QS''" "rank bc \<noteq> CHR ''X''"
      by simp_all
    from count_cards_bonus [OF Inr Some this]
    have "(tally_bonus t \<noteq> None) = (bc \<in> set (taken g p))" by simp
    with Inr Some show ?thesis by (simp add: shoots_def)
  qed
qed

text \<open>
  Claim C4, amended. The bonus card, if one is set, is not a heart, the queen of spades or
  a joker, and no player has the empty name. Then \<^verbatim>\<open>score_players\<close> names a shooter exactly
  when some player's unadjusted round points equal \<^verbatim>\<open>max_score\<close> and, with a bonus card
  set, that player took the bonus card; the shooter is such a player. The moon value is
  \<^verbatim>\<open>max_score\<close>, plus 10 when a bonus card is set. Under 'old' the shooter's round points
  become 0 and every other player's are increased by the moon value; under 'new' the
  shooter's round points become the negative moon value and the others' are unchanged.
  Under 'auto' the old way is used when the highest overall score plus the moon value is
  below the end score, and the new way when some other player's overall score plus the moon
  value reaches the end score.
\<close>

theorem shoot_the_moon:
  assumes "score_players g = Inr (rp, sh)" and "[] \<notin> set (players g)" and "moon g = m # ms"
    and "case bonus g of None \<Rightarrow> True
         | Some bc \<Rightarrow> suit bc \<noteq> CHR ''H'' \<and> \<not> card_is bc ''QS'' \<and> rank bc \<noteq> CHR ''X''"
  shows "(sh \<noteq> [] \<longleftrightarrow>
            (\<exists>p\<in>set (players g). \<exists>t. count_cards g (taken g p) (0, 0, 0, 0, None) = Inr t \<and>
               player_points g t = max_score g \<and>
               (case bonus g of None \<Rightarrow> True | Some bc \<Rightarrow> bc \<in> set (taken g p)))) \<and>
         (sh \<noteq> [] \<longrightarrow> sh \<in> set (players g) \<and>
            (\<exists>t. count_cards g (taken g sh) (0, 0, 0, 0, None) = Inr t \<and>
               player_points g t = max_score g \<and>
               (case bonus g of None \<Rightarrow> True | Some bc \<Rightarrow> bc \<in> set (taken g sh))) \<and>
            (m = CHR ''o'' \<or> m = CHR ''a'' \<and> max_scores g + moon_value g < end_score g \<longrightarrow>
               (\<exists>rp'. adjust_moon g rp sh = Inr rp' \<and> rp' sh = 0 \<and>
                  (\<forall>p\<in>set (players g). p \<noteq> sh \<longrightarrow> rp' p = rp p + moon_value g))) \<and>
            (m = CHR ''n'' \<or>
             m = CHR ''a'' \<and>
               (\<exists>p\<in>set (players g). p \<noteq> sh \<and> end_score g \<le> scores g p + moon_value g) \<longrightarrow>
               adjust_moon g rp sh = Inr (rp(sh := - moon_value g))))"
  using shooter_adjustment [OF assms(1-3)]
  unfolding shoots_iff_took_bonus [OF assms(4)] .

theorem shoot_the_moon_witness:
  "bonus bonus_shooter = Some JD \<and> JD \<in> set (taken bonus_shooter ''Ann'') \<and>
   max_score bonus_shooter = 16 \<and> moon_value bonus_shooter = 26 \<and>
   \<not> isl (score_players bonus_shooter) \<and>
   fst (projr (score_players bonus_shooter)) ''Ann'' = 16 \<and>
   round_result bonus_shooter = Inr ([0, 26, 26, 26], ''Ann'') \<and>
   bonus ann_took_all = None \<and> max_score ann_took_all = 26 \<and>
   \<not> isl (score_players ann_took_all) \<and>
   round_result ann_took_all = Inr ([0, 26, 26, 26], ''Ann'') \<and>
   round_result ann_took_all_new = Inr ([- 26, 0, 0, 0], ''Ann'') \<and>
   round_result ann_took_all_auto_low = Inr ([0, 26, 26, 26], ''Ann'') \<and>
   round_result ann_took_all_auto_high = Inr ([- 26, 0, 0, 0], ''Ann'')"
proof -
  have ev: "bonus bonus_shooter = Some JD \<and> JD \<in> set (taken bonus_shooter ''Ann'') \<and>
     max_score bonus_shooter = 16 \<and> moon_value bonus_shooter = 26 \<and>
     \<not> isl (score_players bonus_shooter) \<and>
     fst (projr (score_players bonus_shooter)) ''Ann'' = 16 \<and>
     round_result bonus_shooter = Inr ([0, 26, 26, 26], ''Ann'') \<and>
     bonus ann_took_all = None \<and> max_score ann_took_all = 26 \<and>
     \<not> isl (score_players ann_took_all) \<and>
     round_result ann_took_all = Inr ([0, 26, 26, 26], ''Ann'') \<and>
     round_result ann_took_all_new = Inr ([- 26, 0, 0, 0], ''Ann'') \<and>
     round_result ann_took_all_auto_low = Inr ([0, 26, 26, 26], ''Ann'') \<and>
     round_result ann_took_all_auto_high = Inr ([- 26, 0, 0, 0], ''Ann'')"
    by code_simp
  have "\<not> isl (score_players bonus_shooter)" using ev by blast
  then have sp1: "score_players bonus_shooter =
      Inr (fst (projr (score_players bonus_shooter)), snd (projr (score_players bonus_shooter)))"
    by simp
  have h1: "[] \<notin> set (players bonus_shooter)" "moon bonus_shooter = CHR ''o'' # ''ld''"
    "case bonus bonus_shooter of None \<Rightarrow> True
     | Some bc \<Rightarrow> suit bc \<noteq> CHR ''H'' \<and> \<not> card_is bc ''QS'' \<and> rank bc \<noteq> CHR ''X''"
    by (simp_all add: bonus_shooter_def bonus_table_def table_def card_is_def up_text_def)
  have "\<not> isl (score_players ann_took_all)" using ev by blast
  then have sp2: "score_players ann_took_all =
      Inr (fst (projr (score_players ann_took_all)), snd (projr (score_players ann_took_all)))"
    by simp
  have h2: "[] \<notin> set (players ann_took_all)" "moon ann_took_all = CHR ''o'' # ''ld''"
    "case bonus ann_took_all of None \<Rightarrow> True
     | Some bc \<Rightarrow> suit bc \<noteq> CHR ''H'' \<and> \<not> card_is bc ''QS'' \<and> rank bc \<noteq> CHR ''X''"
    by (simp_all add: ann_took_all_def table_def)
  show ?thesis
    using shoot_the_moon [OF sp1 h1] shoot_the_moon [OF sp2 h2] by - (rule ev)
qed

text \<open>
  Claim C8, as stated, fails. Ann won every trick and shot the moon, scored the old way;
  Bob won no trick, and five points are taken off for that: Bob's round points are
  26 - 5 = 21, not -5.
\<close>

theorem no_tricks_counterexample:
  "taken ann_took_all_no_tricks ''Bob'' = [] \<and> no_tricks ann_took_all_no_tricks = 5 \<and>
   moon ann_took_all_no_tricks = ''old'' \<and>
   round_result ann_took_all_no_tricks = Inr ([0, 21, 21, 21], ''Ann'')"
  by code_simp

text \<open>
  Claim C8, amended. With a no-tricks value other than 0, a player with no taken cards
  gets from \<^verbatim>\<open>score_players\<close> exactly the negative of that value as round points, whatever
  the cards would give, and a player with taken cards gets the points of the cards. In
  \<^verbatim>\<open>score_round\<close> the round points of the player with no taken cards stay the negative of
  the value, unless another player shot the moon and the old way is used: then the moon
  value is added to them.
\<close>

theorem no_tricks_bonus:
  assumes "score_players g = Inr (rp, sh)" and "distinct (players g)" and "p \<in> set (players g)"
    and "taken g p = []" and "no_tricks g \<noteq> 0"
    and "[] \<notin> set (players g)" and "max_score g \<noteq> 0" and "moon g = m # ms"
  shows "rp p = - no_tricks g \<and>
         (\<forall>q\<in>set (players g). taken g q \<noteq> [] \<longrightarrow>
            (\<exists>t. count_cards g (taken g q) (0, 0, 0, 0, None) = Inr t \<and> rp q = player_points g t)) \<and>
         (\<exists>rp'. adjust_moon g rp sh = Inr rp' \<and>
            rp' p = (if sh \<noteq> [] \<and>
                        (m = CHR ''o'' \<or> m = CHR ''a'' \<and> max_scores g + moon_value g < end_score g)
                     then moon_value g - no_tricks g else - no_tricks g))"
proof -
  from score_players_points [OF assms(1-3)] assms(4,5) have rp: "rp p = - no_tricks g" by auto
  have others: "\<forall>q\<in>set (players g). taken g q \<noteq> [] \<longrightarrow>
      (\<exists>t. count_cards g (taken g q) (0, 0, 0, 0, None) = Inr t \<and> rp q = player_points g t)"
  proof (intro ballI impI)
    fix q assume q: "q \<in> set (players g)" and tq: "taken g q \<noteq> []"
    from score_players_points [OF assms(1,2) q] obtain t where
      t: "count_cards g (taken g q) (0, 0, 0, 0, None) = Inr t"
      and r: "rp q = (if taken g q = [] \<and> no_tricks g \<noteq> 0 then - no_tricks g
                      else player_points g t)" by blast
    from r tq have "rp q = player_points g t" by simp
    with t show "\<exists>t. count_cards g (taken g q) (0, 0, 0, 0, None) = Inr t \<and>
        rp q = player_points g t" by blast
  qed
  have "\<not> shoots g p" using assms(4,7) by (simp add: shoots_def Let_def)
  with score_players_shooter [OF assms(1,6)] assms(3,6) have ne: "p \<noteq> sh" by auto
  have "\<exists>rp'. adjust_moon g rp sh = Inr rp' \<and>
            rp' p = (if sh \<noteq> [] \<and>
                        (m = CHR ''o'' \<or> m = CHR ''a'' \<and> max_scores g + moon_value g < end_score g)
                     then moon_value g - no_tricks g else - no_tricks g)"
  proof (cases "sh = []")
    case True
    with rp show ?thesis by (simp add: adjust_moon_def)
  next
    case False
    show ?thesis
    proof (cases "m = CHR ''o'' \<or> m = CHR ''a'' \<and> max_scores g + moon_value g < end_score g")
      case True
      from adjust_moon_old [OF False assms(8) True, of rp] False True ne rp assms(3)
      show ?thesis by (simp add: moon_old_players)
    next
      case no: False
      then have "m \<noteq> CHR ''o''" "m = CHR ''a'' \<longrightarrow> end_score g \<le> max_scores g + moon_value g"
        by auto
      from adjust_moon_new [OF False assms(8) this, of rp] ne rp
      have "adjust_moon g rp sh = Inr (rp(sh := - moon_value g)) \<and>
          (rp(sh := - moon_value g)) p = - no_tricks g" by simp
      with no show ?thesis by auto
    qed
  qed
  with rp others show ?thesis by blast
qed

theorem no_tricks_bonus_witness:
  "\<not> isl (score_players no_tricks_round) \<and>
   taken no_tricks_round ''Bob'' = [] \<and> no_tricks no_tricks_round = 5 \<and>
   round_result no_tricks_round = Inr ([14, - 5, 12, 0], []) \<and>
   fst (projr (score_players ann_took_all_no_tricks)) ''Bob'' = - 5"
proof -
  have ev: "\<not> isl (score_players no_tricks_round) \<and>
     taken no_tricks_round ''Bob'' = [] \<and> no_tricks no_tricks_round = 5 \<and>
     round_result no_tricks_round = Inr ([14, - 5, 12, 0], []) \<and>
     fst (projr (score_players ann_took_all_no_tricks)) ''Bob'' = - 5"
    by code_simp
  then have "\<not> isl (score_players no_tricks_round)" by (rule conjunct1)
  then have sp: "score_players no_tricks_round =
      Inr (fst (projr (score_players no_tricks_round)), snd (projr (score_players no_tricks_round)))"
    by simp
  have h: "distinct (players no_tricks_round)" "''Bob'' \<in> set (players no_tricks_round)"
    "taken no_tricks_round ''Bob'' = []" "no_tricks no_tricks_round \<noteq> 0"
    "[] \<notin> set (players no_tricks_round)" "max_score no_tricks_round \<noteq> 0"
    "moon no_tricks_round = CHR ''o'' # ''ld''"
    by (simp_all add: no_tricks_round_def table_def)
  show ?thesis
    using no_tricks_bonus [OF sp h] by - (rule ev)
qed

end
